theory Spec2Isabelle
  imports Main "HOL-Library.Word" "HOL-Library.Sublist" "HOL-Library.Monad_Syntax"
begin

unbundle bit_operations_syntax

section \<open>JavaScript values used by the client\<close>

text \<open>
  A JavaScript string is a sequence of 16-bit code units; a \<open>Uint8Array\<close> or \<open>Buffer\<close>
  is a sequence of bytes. String literals of the source are written \<open>js ''...''\<close>.
\<close>

type_synonym code_unit = "16 word"
type_synonym jsstring = "code_unit list"
type_synonym bytes = "8 word list"

definition js :: "string \<Rightarrow> jsstring" where
  "js s = map of_char s"

text \<open>A value of type \<open>any\<close> of which the code only asks whether it is a string.\<close>

datatype jsval = JString jsstring | JOther

section \<open>Export module: the SCRAM exchange of \<open>NeonClient._handleAuthSASLContinue\<close>\<close>

subsection \<open>Attribute parsing (source lines 97 to 104)\<close>

text \<open>\<open>serverData.split(',')\<close>: always at least one piece, the empty string gives one
  empty piece.\<close>

fun split_comma :: "jsstring \<Rightarrow> jsstring list" where
  "split_comma [] = [[]]"
| "split_comma (c # cs) =
     (if c = 0x2C then [] # split_comma cs
      else (case split_comma cs of
              [] \<Rightarrow> [[c]]
            | p # ps \<Rightarrow> (c # p) # ps))"

text \<open>The regular expression \<open>/^.=/\<close>: a dot matches any code unit but the four line
  terminators LF, CR, U+2028 and U+2029.\<close>

definition line_terminator :: "code_unit \<Rightarrow> bool" where
  "line_terminator c = (c = 0x0A \<or> c = 0x0D \<or> c = 0x2028 \<or> c = 0x2029)"

fun attr_pair_re :: "jsstring \<Rightarrow> bool" where
  "attr_pair_re (c # e # rest) = (\<not> line_terminator c \<and> e = 0x3D)"
| "attr_pair_re _ = False"

datatype error =
    SASL_protocol_error
  | SASL_invalid_attribute_pair
  | SASL_nonce_missing_unprintable
  | SASL_salt_missing_not_base64
  | SASL_invalid_iteration_count
  | SASL_nonce_not_prefixed
  | SASL_nonce_too_short
  | Provider_DataError

text \<open>The callback of \<open>map\<close>: the first piece that fails the test throws; otherwise the
  entry is \<open>[attrValue[0], attrValue.substring(2)]\<close>.\<close>

fun attr_entries :: "jsstring list \<Rightarrow> error + (jsstring \<times> jsstring) list" where
  "attr_entries [] = Inr []"
| "attr_entries (attrValue # more) =
     (if \<not> attr_pair_re attrValue then Inl SASL_invalid_attribute_pair
      else (case attr_entries more of
              Inl e \<Rightarrow> Inl e
            | Inr es \<Rightarrow> Inr ((take 1 attrValue, drop 2 attrValue) # es)))"

text \<open>\<open>Object.fromEntries\<close> defines the properties in the order of the entries, a later
  entry overwriting an earlier one of the same name.\<close>

definition fromEntries :: "(jsstring \<times> jsstring) list \<Rightarrow> (jsstring \<rightharpoonup> jsstring)" where
  "fromEntries es = foldl (\<lambda>obj (name, v). obj(name \<mapsto> v)) Map.empty es"

definition attrPairs :: "jsstring \<Rightarrow> error + (jsstring \<rightharpoonup> jsstring)" where
  "attrPairs serverData =
     (case attr_entries (split_comma serverData) of
        Inl e \<Rightarrow> Inl e
      | Inr es \<Rightarrow> Inr (fromEntries es))"

subsection \<open>Validation (source lines 106 to 114)\<close>

text \<open>\<open>/^[!-+--~]+$/\<close>: one or more code units in \<open>!\<close>..\<open>+\<close> or \<open>-\<close>..\<open>~\<close>.\<close>

definition nonce_unit :: "code_unit \<Rightarrow> bool" where
  "nonce_unit c = ((0x21 \<le> c \<and> c \<le> 0x2B) \<or> (0x2D \<le> c \<and> c \<le> 0x7E))"

definition nonce_re :: "jsstring \<Rightarrow> bool" where
  "nonce_re s = (s \<noteq> [] \<and> list_all nonce_unit s)"

text \<open>\<open>/^(?:[a-zA-Z0-9+/]{4})*(?:[a-zA-Z0-9+/]{2}==|[a-zA-Z0-9+/]{3}=)?$/\<close>\<close>

definition b64_unit :: "code_unit \<Rightarrow> bool" where
  "b64_unit c = ((0x61 \<le> c \<and> c \<le> 0x7A) \<or> (0x41 \<le> c \<and> c \<le> 0x5A) \<or>
                 (0x30 \<le> c \<and> c \<le> 0x39) \<or> c = 0x2B \<or> c = 0x2F)"

fun salt_re :: "jsstring \<Rightarrow> bool" where
  "salt_re [] = True"
| "salt_re [a, b, c, d] =
     (b64_unit a \<and> b64_unit b \<and>
      ((b64_unit c \<and> b64_unit d) \<or> (c = 0x3D \<and> d = 0x3D) \<or> (b64_unit c \<and> d = 0x3D)))"
| "salt_re (a # b # c # d # rest) =
     (b64_unit a \<and> b64_unit b \<and> b64_unit c \<and> b64_unit d \<and> salt_re rest)"
| "salt_re _ = False"

text \<open>\<open>/^[1-9][0-9]*$/\<close>\<close>

definition digit_unit :: "code_unit \<Rightarrow> bool" where
  "digit_unit c = (0x30 \<le> c \<and> c \<le> 0x39)"

fun iteration_re :: "jsstring \<Rightarrow> bool" where
  "iteration_re [] = False"
| "iteration_re (c # cs) = (0x31 \<le> c \<and> c \<le> 0x39 \<and> list_all digit_unit cs)"

text \<open>\<open>!x\<close> for a property that is \<open>undefined\<close> or a string: true when it is missing or
  empty.\<close>

fun falsy :: "jsstring option \<Rightarrow> bool" where
  "falsy None = True"
| "falsy (Some s) = (s = [])"

text \<open>\<open>nonce.startsWith(clientNonce)\<close>\<close>

definition startsWith :: "jsstring \<Rightarrow> jsstring \<Rightarrow> bool" where
  "startsWith s p = (take (length p) s = p)"

text \<open>The five checks in the order of the source; the result is
  \<open>(nonce, salt, iterationText)\<close>.\<close>

definition validate ::
  "jsstring \<Rightarrow> (jsstring \<rightharpoonup> jsstring) \<Rightarrow> error + (jsstring \<times> jsstring \<times> jsstring)" where
  "validate cn attrs =
     (let nonce = attrs (js ''r'');
          salt = attrs (js ''s'');
          iterationText = attrs (js ''i'')
      in if falsy nonce \<or> \<not> nonce_re (the nonce) then Inl SASL_nonce_missing_unprintable
         else if falsy salt \<or> \<not> salt_re (the salt) then Inl SASL_salt_missing_not_base64
         else if falsy iterationText \<or> \<not> iteration_re (the iterationText)
           then Inl SASL_invalid_iteration_count
         else if \<not> startsWith (the nonce) cn then Inl SASL_nonce_not_prefixed
         else if length (the nonce) = length cn then Inl SASL_nonce_too_short
         else Inr (the nonce, the salt, the iterationText))"

subsection \<open>Numbers\<close>

text \<open>
  \<open>parseInt(iterationText, 10)\<close> on a string of decimal digits, and the conversion of
  a number to a string in \<open>',i=' + iterations\<close>. Numbers of the source are IEEE doubles:
  they are exact on the integers up to \<open>2 ^ 53 = 9007199254740992\<close>, which is where the natural numbers
  of the model and the numbers of the code agree (\<open>exact_number\<close>).
\<close>

definition digit_value :: "code_unit \<Rightarrow> nat" where
  "digit_value c = unat c - 48"

definition parseInt :: "jsstring \<Rightarrow> nat" where
  "parseInt s = foldl (\<lambda>n c. 10 * n + digit_value c) 0 s"

definition exact_number :: "nat \<Rightarrow> bool" where
  "exact_number n = (n \<le> 9007199254740992)"

definition digit_of :: "nat \<Rightarrow> code_unit" where
  "digit_of d = of_nat (48 + d)"

fun number_toString :: "nat \<Rightarrow> jsstring" where
  "number_toString n =
     (if n < 10 then [digit_of n] else number_toString (n div 10) @ [digit_of (n mod 10)])"

declare number_toString.simps [simp del]

subsection \<open>The cryptographic provider and the byte helpers\<close>

text \<open>
  The platform functions the method calls: \<open>crypto.subtle.importKey('raw', data,
  {name: 'HMAC', hash: {name: 'SHA-256'}}, false, ['sign'])\<close>, which rejects some key
  material (\<open>None\<close>), \<open>crypto.subtle.sign('HMAC', key, data)\<close>,
  \<open>crypto.subtle.digest('SHA-256', data)\<close>, \<open>new TextEncoder().encode\<close>,
  \<open>Buffer.from(s, 'base64')\<close> and \<open>buf.toString('base64')\<close>. They are parameters of
  the model.
\<close>

record 'k provider =
  subtle_importKey :: "bytes \<Rightarrow> 'k option"
  subtle_sign :: "'k \<Rightarrow> bytes \<Rightarrow> bytes"
  subtle_digest :: "bytes \<Rightarrow> bytes"
  enc_encode :: "jsstring \<Rightarrow> bytes"
  from_base64 :: "jsstring \<Rightarrow> bytes"
  to_base64 :: "bytes \<Rightarrow> jsstring"

text \<open>\<open>a.map((_, i) => a[i] ^ b[i])\<close> on byte arrays: the result has the length of \<open>a\<close>,
  and an index beyond \<open>b\<close> reads \<open>undefined\<close>, which \<open>^\<close> takes as 0.\<close>

definition xor_bytes :: "bytes \<Rightarrow> bytes \<Rightarrow> bytes" where
  "xor_bytes a b = map (\<lambda>i. (a ! i) XOR (if i < length b then b ! i else 0)) [0..<length a]"

text \<open>The loop of lines 123 to 126: \<open>for (var i = 0; i < iterations - 1; i++)\<close> over
  the pair \<open>(ui1, ui)\<close>; \<open>hmac\<close> is \<open>sign\<close> under \<open>iterHmacKey\<close>.\<close>

function hi_loop :: "(bytes \<Rightarrow> bytes) \<Rightarrow> nat \<Rightarrow> nat \<Rightarrow> bytes \<Rightarrow> bytes \<Rightarrow> bytes" where
  "hi_loop hmac iterations i ui1 ui =
     (if i < iterations - 1
      then (let ui1' = hmac ui1;
                ui' = xor_bytes ui ui1'
            in hi_loop hmac iterations (i + 1) ui1' ui')
      else ui)"
  by pat_completeness auto
termination
  by (relation "measure (\<lambda>(hmac, iterations, i, ui1, ui). (iterations - 1) - i)") auto

declare hi_loop.simps [simp del]

subsection \<open>Key derivation and proof (source lines 116 to 146)\<close>

record scram_locals =
  saltedPassword :: bytes
  clientKey :: bytes
  storedKey :: bytes
  authMessage :: jsstring
  clientFinalMessageWithoutProof :: jsstring
  clientProof :: jsstring
  serverSignatureBytes :: bytes

definition serverFirstMessage :: "jsstring \<Rightarrow> jsstring \<Rightarrow> nat \<Rightarrow> jsstring" where
  "serverFirstMessage nonce salt iterations =
     js ''r='' @ nonce @ js '',s='' @ salt @ js '',i='' @ number_toString iterations"

definition scram_compute ::
  "'k provider \<Rightarrow> jsstring \<Rightarrow> jsstring \<Rightarrow> jsstring \<Rightarrow> jsstring \<Rightarrow> nat \<Rightarrow> scram_locals option" where
  "scram_compute P password cn nonce salt iterations = do {
     let saltBytes = from_base64 P salt;
     let passwordBytes = enc_encode P password;
     iterHmacKey \<leftarrow> subtle_importKey P passwordBytes;
     let ui1 = subtle_sign P iterHmacKey (saltBytes @ [0, 0, 0, 1]);
     let ui = hi_loop (subtle_sign P iterHmacKey) iterations 0 ui1 ui1;
     let saltedPassword = ui;
     ckHmacKey \<leftarrow> subtle_importKey P saltedPassword;
     let clientKey = subtle_sign P ckHmacKey (enc_encode P (js ''Client Key''));
     let storedKey = subtle_digest P clientKey;
     let clientFirstMessageBare = js ''n=*,r='' @ cn;
     let clientFinalMessageWithoutProof = js ''c=biws,r='' @ nonce;
     let authMessage = clientFirstMessageBare @ js '','' @
                       serverFirstMessage nonce salt iterations @ js '','' @
                       clientFinalMessageWithoutProof;
     csHmacKey \<leftarrow> subtle_importKey P storedKey;
     let clientSignature = subtle_sign P csHmacKey (enc_encode P authMessage);
     let clientProofBytes = xor_bytes clientKey clientSignature;
     let clientProof = to_base64 P clientProofBytes;
     skHmacKey \<leftarrow> subtle_importKey P saltedPassword;
     let serverKey = subtle_sign P skHmacKey (enc_encode P (js ''Server Key''));
     ssbHmacKey \<leftarrow> subtle_importKey P serverKey;
     let serverSignatureBytes = subtle_sign P ssbHmacKey (enc_encode P authMessage);
     Some \<lparr> saltedPassword = saltedPassword, clientKey = clientKey, storedKey = storedKey,
            authMessage = authMessage,
            clientFinalMessageWithoutProof = clientFinalMessageWithoutProof,
            clientProof = clientProof, serverSignatureBytes = serverSignatureBytes \<rparr>
   }"

subsection \<open>The method\<close>

text \<open>
  The SASL session object of the client (\<open>this.saslSession\<close>), the configured password
  and the messages handed to \<open>this.connection.sendSCRAMClientFinalMessage\<close>, oldest first.
\<close>

record sasl_session =
  message :: jsstring
  clientNonce :: jsstring
  serverSignature :: "jsstring option"
  response :: "jsstring option"

record sasl_client =
  password :: jsval
  saslSession :: sasl_session
  sentClientFinal :: "jsstring list"

text \<open>
  How a call ends: it returns, it throws, or the iteration count is beyond the exact
  numbers, where the loop counter of the source no longer counts and the model says
  nothing.
\<close>

datatype outcome = Returned | Threw error | Inexact_iterations

text \<open>Lines 90 to 146: the guard, the parsing, the validation and the derivation.
  Nothing is written before line 148, so this part is a function of the client's state.\<close>

definition continue_locals ::
  "'k provider \<Rightarrow> sasl_client \<Rightarrow> jsval \<Rightarrow> outcome + scram_locals" where
  "continue_locals P this msg_data =
     (let session = saslSession this in
      case (password this, msg_data) of
        (JString pw, JString serverData) \<Rightarrow>
          if message session \<noteq> js ''SASLInitialResponse'' then Inl (Threw SASL_protocol_error)
          else (case attrPairs serverData of
              Inl e \<Rightarrow> Inl (Threw e)
            | Inr attrs \<Rightarrow>
              (case validate (clientNonce session) attrs of
                 Inl e \<Rightarrow> Inl (Threw e)
               | Inr (nonce, salt, iterationText) \<Rightarrow>
                 (let iterations = parseInt iterationText in
                  if \<not> exact_number iterations then Inl Inexact_iterations
                  else (case scram_compute P pw (clientNonce session) nonce salt iterations of
                      None \<Rightarrow> Inl (Threw Provider_DataError)
                    | Some l \<Rightarrow> Inr l))))
      | _ \<Rightarrow> Inl (Threw SASL_protocol_error))"

text \<open>Lines 148 to 152: the three assignments to the session and the call of
  \<open>sendSCRAMClientFinalMessage\<close> with \<open>this.saslSession.response\<close>.\<close>

definition handleAuthSASLContinue ::
  "'k provider \<Rightarrow> sasl_client \<Rightarrow> jsval \<Rightarrow> outcome \<times> sasl_client" where
  "handleAuthSASLContinue P this msg_data =
     (case continue_locals P this msg_data of
        Inl out \<Rightarrow> (out, this)
      | Inr l \<Rightarrow>
          (let session = (saslSession this)
                 \<lparr> message := js ''SASLResponse'',
                   serverSignature := Some (to_base64 P (serverSignatureBytes l)),
                   response := Some (clientFinalMessageWithoutProof l @ js '',p='' @
                                     clientProof l) \<rparr>;
               this' = this \<lparr> saslSession := session \<rparr>
           in (Returned,
               this' \<lparr> sentClientFinal :=
                         sentClientFinal this' @ [the (response (saslSession this'))] \<rparr>)))"

section \<open>Export module: \<open>NeonClient.connect\<close>\<close>

subsection \<open>The event emitter of the connection\<close>

text \<open>
  The events of the pg connection \<open>con\<close> that the method names, and any other event by
  its name.
\<close>

datatype event =
    Connect
  | SslConnect
  | AuthenticationCleartextPassword
  | ReadyForQuery
  | OtherEvent string

text \<open>
  The listeners on \<open>con\<close>: those the pg client installed in \<open>super.connect\<close> (code
  of the pg library, known here by a number only), and the four closures of the method.
\<close>

datatype listener =
    PgListener nat
  | FakeSslSupport
  | ReinstallReadyForQuery
  | HandleReadyForQuery
  | PipelinedStartup

text \<open>A registration is a listener and whether it was added with \<open>once\<close>.\<close>

type_synonym listeners = "event \<Rightarrow> (listener \<times> bool) list"

definition on :: "event \<Rightarrow> listener \<Rightarrow> listeners \<Rightarrow> listeners" where
  "on ev l ls = ls(ev := ls ev @ [(l, False)])"

definition once :: "event \<Rightarrow> listener \<Rightarrow> listeners \<Rightarrow> listeners" where
  "once ev l ls = ls(ev := ls ev @ [(l, True)])"

definition removeAllListeners :: "event \<Rightarrow> listeners \<Rightarrow> listeners" where
  "removeAllListeners ev ls = ls(ev := [])"

text \<open>
  What the client does when a listener runs: a listener of the pg library runs (opaque),
  \<open>con.stream.emit('data', d)\<close> (which hands \<open>d\<close> to the listeners of the stream's
  \<open>data\<close> event; they belong to the pg connection), \<open>this._handleAuthCleartextPassword()\<close>
  (which sends the password message) and \<open>this._handleReadyForQuery()\<close>.
\<close>

datatype action =
    PgAction nat
  | StreamEmitData jsstring
  | Call_handleAuthCleartextPassword
  | Call_handleReadyForQuery

text \<open>
  The body of each listener: the listeners of \<open>con\<close> after it, and what was done. The
  listeners and the two methods of the pg client are taken to leave the listeners of
  \<open>con\<close> as they are; the only listener that registers another is the one of line 78.
\<close>

fun run_listener :: "listener \<Rightarrow> listeners \<Rightarrow> listeners \<times> action list" where
  "run_listener (PgListener n) ls = (ls, [PgAction n])"
| "run_listener FakeSslSupport ls = (ls, [StreamEmitData (js ''S'')])"
| "run_listener ReinstallReadyForQuery ls = (on ReadyForQuery HandleReadyForQuery ls, [])"
| "run_listener HandleReadyForQuery ls = (ls, [Call_handleReadyForQuery])"
| "run_listener PipelinedStartup ls =
     (ls, [Call_handleAuthCleartextPassword, Call_handleReadyForQuery])"

text \<open>
  \<open>con.emit(ev)\<close>: the listeners registered when the event is emitted run in the order
  of their registration; one added with \<open>once\<close> is removed before it runs.
\<close>

fun emit_each :: "event \<Rightarrow> (listener \<times> bool) list \<Rightarrow> listeners \<Rightarrow> listeners \<times> action list" where
  "emit_each ev [] ls = (ls, [])"
| "emit_each ev ((l, one_shot) # rest) ls =
     (let ls1 = (if one_shot then ls(ev := remove1 (l, True) (ls ev)) else ls);
          (ls2, acts) = run_listener l ls1;
          (ls3, acts') = emit_each ev rest ls2
      in (ls3, acts @ acts'))"

definition emit :: "event \<Rightarrow> listeners \<Rightarrow> listeners \<times> action list" where
  "emit ev ls = emit_each ev (ls ev) ls"

text \<open>A sequence of events on \<open>con\<close>, with everything the client did in response.\<close>

fun emits :: "event list \<Rightarrow> listeners \<Rightarrow> listeners \<times> action list" where
  "emits [] ls = (ls, [])"
| "emits (ev # evs) ls =
     (let (ls1, acts) = emit ev ls;
          (ls2, acts') = emits evs ls1
      in (ls2, acts @ acts'))"

subsection \<open>The method (source lines 43 to 88)\<close>

text \<open>\<open>pipelineConnect: 'password' | false\<close> of the socket defaults.\<close>

datatype pipeline_connect = Pipeline_password | Pipeline_false

fun truthy :: "pipeline_connect \<Rightarrow> bool" where
  "truthy Pipeline_password = True"
| "truthy Pipeline_false = False"

record neon_config =
  useSecureWebSocket :: bool
  pipelineTLS :: bool
  pipelineConnect :: pipeline_connect

datatype warning = Warn_double_encryption | Warn_localhost

record neon_client =
  ssl :: bool
  host :: jsstring
  neonConfig :: neon_config
  con_listeners :: listeners
  warnings :: "warning list"

text \<open>
  \<open>super.connect(callback)\<close> is the pg client's: it leaves its own listeners on
  \<open>con\<close>. \<open>pg\<close> gives, for each event, their numbers and whether each was added with
  \<open>once\<close>.
\<close>

definition super_connect :: "(event \<Rightarrow> (nat \<times> bool) list) \<Rightarrow> neon_client \<Rightarrow> neon_client" where
  "super_connect pg this =
     this \<lparr> con_listeners := (\<lambda>ev. map (\<lambda>(n, one_shot). (PgListener n, one_shot)) (pg ev)) \<rparr>"

definition connectEvent :: "neon_client \<Rightarrow> event" where
  "connectEvent this = (if ssl this then SslConnect else Connect)"

definition connect :: "(event \<Rightarrow> (nat \<times> bool) list) \<Rightarrow> neon_client \<Rightarrow> neon_client" where
  "connect pg this0 =
     (let w1 = (if ssl this0 \<and> useSecureWebSocket (neonConfig this0)
                then [Warn_double_encryption] else []);
          w2 = (if host this0 = js ''localhost'' then [Warn_localhost] else []);
          this = super_connect pg (this0 \<lparr> warnings := warnings this0 @ w1 @ w2 \<rparr>);
          pipelineTLS_ok = (pipelineTLS (neonConfig this) \<and> ssl this);
          pipelineConnect_ok = (pipelineConnect (neonConfig this) = Pipeline_password)
      in if \<not> pipelineTLS_ok \<and> \<not> truthy (pipelineConnect (neonConfig this)) then this
         else
           (let con1 = (if pipelineTLS_ok then on Connect FakeSslSupport (con_listeners this)
                        else con_listeners this);
                con2 = (if pipelineConnect_ok
                        then on (connectEvent this) PipelinedStartup
                               (once ReadyForQuery ReinstallReadyForQuery
                                 (removeAllListeners ReadyForQuery
                                   (removeAllListeners AuthenticationCleartextPassword con1)))
                        else con1)
            in this \<lparr> con_listeners := con2 \<rparr>))"

section \<open>The server's final message\<close>

text \<open>
  Modelled from the spec: the handling of the server's final SCRAM message, which is the pg
  client's inherited \<open>_handleAuthSASLFinal\<close> and is not under src/. The spec says of the
  expected server signature only that it is "retained for verification against the server's
  final message (a mismatch must abort the connection rather than being ignored)". The
  argument is the signature the server's final message carries.
\<close>

datatype final_outcome = Authenticated | Aborted_signature_mismatch

definition handleAuthSASLFinal :: "sasl_client \<Rightarrow> jsstring \<Rightarrow> final_outcome" where
  "handleAuthSASLFinal this server_signature =
     (if serverSignature (saslSession this) = Some server_signature then Authenticated
      else Aborted_signature_mismatch)"

section \<open>HTTP query results\<close>

text \<open>
  The declarations of \<open>QueryRows\<close> and \<open>FullQueryResults\<close> (index.d.ts, lines 255 to
  262): rows are arrays of values in array mode and objects keyed by column name
  otherwise; the full result carries \<open>fields\<close>, \<open>command\<close>, \<open>rowCount\<close>, \<open>rows\<close> and
  \<open>rowAsArray\<close> (the fields \<open>res_...\<close> of the record).
\<close>

datatype 'v query_rows =
    Array_rows "'v list list"
  | Object_rows "(string \<rightharpoonup> 'v) list"

record 'v full_query_results =
  res_fields :: "string list"
  res_command :: string
  res_rowCount :: nat
  res_rows :: "'v query_rows"
  res_rowAsArray :: bool

datatype 'v query_result = Bare_rows "'v query_rows" | Full_results "'v full_query_results"

text \<open>The options \<open>arrayMode?\<close> and \<open>fullResults?\<close> of \<open>HTTPQueryOptions\<close>; both
  default to \<open>false\<close>.\<close>

record http_query_options =
  arrayMode :: "bool option"
  fullResults :: "bool option"

text \<open>The server's answer to one query: the column names, the command tag, the row count
  and the rows by position.\<close>

record 'v raw_response =
  raw_fields :: "string list"
  raw_command :: string
  raw_rowCount :: nat
  raw_rows :: "'v list list"

text \<open>
  Modelled from the spec: the shaping of a response by the HTTP query function
  (\<open>processQueryResult\<close> of the httpQuery module, of which only the declarations are
  under src/). The spec: "\<open>arrayMode=false\<close> (default) yields objects keyed by column
  name; \<open>true\<close> yields positional arrays. \<open>fullResults=false\<close> (default) yields bare rows;
  \<open>true\<close> yields \<open>{fields, command, rowCount, rows, rowAsArray}\<close>".
\<close>

definition shape_rows :: "bool \<Rightarrow> string list \<Rightarrow> 'v list list \<Rightarrow> 'v query_rows" where
  "shape_rows array_mode names rs =
     (if array_mode then Array_rows rs
      else Object_rows (map (\<lambda>r. map_of (zip names r)) rs))"

definition processQueryResult :: "http_query_options \<Rightarrow> 'v raw_response \<Rightarrow> 'v query_result" where
  "processQueryResult opts raw =
     (let array_mode = (case arrayMode opts of None \<Rightarrow> False | Some b \<Rightarrow> b);
          full_results = (case fullResults opts of None \<Rightarrow> False | Some b \<Rightarrow> b);
          shaped = shape_rows array_mode (raw_fields raw) (raw_rows raw)
      in if full_results
         then Full_results \<lparr> res_fields = raw_fields raw, res_command = raw_command raw,
                              res_rowCount = raw_rowCount raw, res_rows = shaped,
                              res_rowAsArray = array_mode \<rparr>
         else Bare_rows shaped)"

section \<open>The statements of the specification\<close>

subsection \<open>PBKDF2 with one block\<close>

text \<open>
  In the words of the spec: \<open>iterations\<close> rounds of the keyed HMAC, the first on
  \<open>salt || 0x00000001\<close> and each later one on the output of the round before it, every
  round's output XOR-accumulated into a running total. Rounds are numbered from 1.
\<close>

fun hmac_round :: "(bytes \<Rightarrow> bytes) \<Rightarrow> bytes \<Rightarrow> nat \<Rightarrow> bytes" where
  "hmac_round mac salt 0 = []"
| "hmac_round mac salt (Suc 0) = mac (salt @ [0, 0, 0, 1])"
| "hmac_round mac salt (Suc k) = mac (hmac_round mac salt k)"

definition xor_accumulate :: "bytes list \<Rightarrow> bytes" where
  "xor_accumulate us = (case us of [] \<Rightarrow> [] | u # rest \<Rightarrow> foldl xor_bytes u rest)"

definition pbkdf2_block :: "(bytes \<Rightarrow> bytes) \<Rightarrow> bytes \<Rightarrow> nat \<Rightarrow> bytes" where
  "pbkdf2_block mac salt i = xor_accumulate (map (hmac_round mac salt) [1..<Suc i])"

subsection \<open>HMAC, the auth message and the proof\<close>

text \<open>\<open>HMAC(key, data)\<close> through the provider: the key material is imported, then
  signs.\<close>

definition HMAC :: "'k provider \<Rightarrow> bytes \<Rightarrow> bytes \<Rightarrow> bytes option" where
  "HMAC P key_bytes data =
     (case subtle_importKey P key_bytes of
        None \<Rightarrow> None
      | Some k \<Rightarrow> Some (subtle_sign P k data))"

text \<open>\<open>authMessage = clientFirstBare + "," + serverFirst + "," + clientFinalWithoutProof\<close>
  with \<open>clientFirstBare = "n=*,r=" + clientNonce\<close> and
  \<open>clientFinalWithoutProof = "c=biws,r=" + serverNonce\<close>.\<close>

definition spec_authMessage :: "jsstring \<Rightarrow> jsstring \<Rightarrow> jsstring \<Rightarrow> jsstring" where
  "spec_authMessage cn serverFirst serverNonce =
     (js ''n=*,r='' @ cn) @ js '','' @ serverFirst @ js '','' @ (js ''c=biws,r='' @ serverNonce)"

text \<open>\<open>clientProof = base64(clientKey XOR HMAC(storedKey, authMessage))\<close> and the final
  client message \<open>clientFinalWithoutProof + ",p=" + clientProof\<close>.\<close>

definition spec_clientProof :: "'k provider \<Rightarrow> bytes \<Rightarrow> bytes \<Rightarrow> jsstring \<Rightarrow> jsstring option" where
  "spec_clientProof P client_key stored_key auth_message =
     (case HMAC P stored_key (enc_encode P auth_message) of
        None \<Rightarrow> None
      | Some clientSignature \<Rightarrow> Some (to_base64 P (xor_bytes client_key clientSignature)))"

definition spec_clientFinal ::
  "'k provider \<Rightarrow> bytes \<Rightarrow> bytes \<Rightarrow> jsstring \<Rightarrow> jsstring \<Rightarrow> jsstring option" where
  "spec_clientFinal P client_key stored_key auth_message serverNonce =
     (case spec_clientProof P client_key stored_key auth_message of
        None \<Rightarrow> None
      | Some proof_text \<Rightarrow> Some ((js ''c=biws,r='' @ serverNonce) @ js '',p='' @ proof_text))"

text \<open>\<open>serverSignature = base64(HMAC(HMAC(saltedPassword, "Server Key"), authMessage))\<close>\<close>

definition spec_serverSignature :: "'k provider \<Rightarrow> bytes \<Rightarrow> jsstring \<Rightarrow> jsstring option" where
  "spec_serverSignature P salted_password auth_message =
     (case HMAC P salted_password (enc_encode P (js ''Server Key'')) of
        None \<Rightarrow> None
      | Some serverKey \<Rightarrow>
          (case HMAC P serverKey (enc_encode P auth_message) of
             None \<Rightarrow> None
           | Some sig \<Rightarrow> Some (to_base64 P sig)))"

subsection \<open>The attribute checks\<close>

text \<open>
  Printable ASCII but the comma; base64 text with padding (groups of four, as many
  \<open>=\<close> at the end as needed and no more than two); a positive decimal integer; a server
  nonce that extends the client nonce.
\<close>

definition printable_no_comma :: "jsstring \<Rightarrow> bool" where
  "printable_no_comma s = (s \<noteq> [] \<and> (\<forall>c \<in> set s. 0x21 \<le> c \<and> c \<le> 0x7E \<and> c \<noteq> 0x2C))"

definition valid_base64 :: "jsstring \<Rightarrow> bool" where
  "valid_base64 s =
     (let body = takeWhile (\<lambda>c. c \<noteq> 0x3D) s;
          padding = dropWhile (\<lambda>c. c \<noteq> 0x3D) s
      in length s mod 4 = 0 \<and> list_all b64_unit body \<and>
         (padding = [] \<or> padding = [0x3D] \<or> padding = [0x3D, 0x3D]))"

definition positive_decimal :: "jsstring \<Rightarrow> bool" where
  "positive_decimal s = (s \<noteq> [] \<and> list_all digit_unit s \<and> 0 < parseInt s)"

text \<open>The attribute \<open>k\<close> of a server-first message as the method reads it.\<close>

definition attribute :: "jsstring \<Rightarrow> string \<Rightarrow> jsstring option" where
  "attribute serverData k =
     (case attrPairs serverData of Inl e \<Rightarrow> None | Inr attrs \<Rightarrow> attrs (js k))"

text \<open>The messages of claim C3: an attribute is absent, or fails its check, or the
  server nonce does not strictly extend the client nonce.\<close>

definition rejected_server_first :: "jsstring \<Rightarrow> jsstring \<Rightarrow> bool" where
  "rejected_server_first cn serverData =
     (case (attribute serverData ''r'', attribute serverData ''s'', attribute serverData ''i'') of
        (Some r, Some s, Some i) \<Rightarrow>
          \<not> printable_no_comma r \<or> \<not> valid_base64 s \<or> \<not> positive_decimal i \<or>
          \<not> strict_prefix cn r
      | _ \<Rightarrow> True)"

text \<open>The value of the last piece named \<open>k\<close> among the pieces of a message.\<close>

definition last_occurrence :: "jsstring \<Rightarrow> jsstring list \<Rightarrow> jsstring option" where
  "last_occurrence k pieces =
     (case filter (\<lambda>a. take 1 a = k) (rev pieces) of
        [] \<Rightarrow> None
      | a # older \<Rightarrow> Some (drop 2 a))"

section \<open>A provider to run the model on\<close>

text \<open>A small provider with three-byte signatures; it rejects empty key material as the
  platform does.\<close>

definition demo_provider :: "bytes provider" where
  "demo_provider =
     \<lparr> subtle_importKey = (\<lambda>k. if k = [] then None else Some k),
       subtle_sign = (\<lambda>k m. [sum_list k, sum_list m, of_nat (length m)]),
       subtle_digest = rev,
       enc_encode = map ucast,
       from_base64 = map ucast,
       to_base64 = map ucast \<rparr>"

definition demo_client :: sasl_client where
  "demo_client =
     \<lparr> password = JString (js ''pencil''),
       saslSession = \<lparr> message = js ''SASLInitialResponse'', clientNonce = js ''rOprNGfw'',
                       serverSignature = None, response = None \<rparr>,
       sentClientFinal = [] \<rparr>"

text \<open>
  A connection to run \<open>connect\<close> on: the pg client has left listener 1 on \<open>connect\<close>,
  2 on \<open>sslconnect\<close>, 3 on \<open>authenticationCleartextPassword\<close>, 4 on \<open>readyForQuery\<close>
  and 5 on \<open>authenticationSASL\<close>.
\<close>

definition demo_pg :: "event \<Rightarrow> (nat \<times> bool) list" where
  "demo_pg ev =
     (if ev = Connect then [(1, False)]
      else if ev = SslConnect then [(2, False)]
      else if ev = AuthenticationCleartextPassword then [(3, False)]
      else if ev = ReadyForQuery then [(4, False)]
      else if ev = OtherEvent ''authenticationSASL'' then [(5, False)]
      else [])"

definition demo_neon_client :: neon_client where
  "demo_neon_client =
     \<lparr> ssl = False, host = js ''db.example.org'',
       neonConfig = \<lparr> useSecureWebSocket = True, pipelineTLS = False,
                      pipelineConnect = Pipeline_password \<rparr>,
       con_listeners = (\<lambda>ev. []), warnings = [] \<rparr>"

section \<open>Properties of the SCRAM exchange\<close>

subsection \<open>What a successful derivation computed\<close>

lemma continue_locals_Inr:
  assumes "continue_locals P this msg_data = Inr l"
  shows "\<exists>pw serverData attrs nonce salt iterationText.
           password this = JString pw \<and> msg_data = JString serverData \<and>
           message (saslSession this) = js ''SASLInitialResponse'' \<and>
           attrPairs serverData = Inr attrs \<and>
           validate (clientNonce (saslSession this)) attrs = Inr (nonce, salt, iterationText) \<and>
           exact_number (parseInt iterationText) \<and>
           scram_compute P pw (clientNonce (saslSession this)) nonce salt
             (parseInt iterationText) = Some l"
  using assms unfolding continue_locals_def Let_def
  by (auto split: jsval.splits if_splits sum.splits prod.splits option.splits)

lemma scram_compute_Some:
  assumes "scram_compute P pw cn nonce salt n = Some l"
  shows "\<exists>k1 k2 k3 k4 k5.
           subtle_importKey P (enc_encode P pw) = Some k1 \<and>
           saltedPassword l =
             hi_loop (subtle_sign P k1) n 0
               (subtle_sign P k1 (from_base64 P salt @ [0, 0, 0, 1]))
               (subtle_sign P k1 (from_base64 P salt @ [0, 0, 0, 1])) \<and>
           subtle_importKey P (saltedPassword l) = Some k2 \<and>
           clientKey l = subtle_sign P k2 (enc_encode P (js ''Client Key'')) \<and>
           storedKey l = subtle_digest P (clientKey l) \<and>
           authMessage l = js ''n=*,r='' @ cn @ js '','' @ serverFirstMessage nonce salt n @
                           js '','' @ js ''c=biws,r='' @ nonce \<and>
           clientFinalMessageWithoutProof l = js ''c=biws,r='' @ nonce \<and>
           subtle_importKey P (storedKey l) = Some k3 \<and>
           clientProof l =
             to_base64 P (xor_bytes (clientKey l)
               (subtle_sign P k3 (enc_encode P (authMessage l)))) \<and>
           subtle_importKey P (saltedPassword l) = Some k4 \<and>
           subtle_importKey P (subtle_sign P k4 (enc_encode P (js ''Server Key''))) = Some k5 \<and>
           serverSignatureBytes l = subtle_sign P k5 (enc_encode P (authMessage l))"
  using assms unfolding scram_compute_def Let_def
  by (auto split: bind_splits)

subsection \<open>The loop is PBKDF2 with one block\<close>

lemma xor_bytes_map2: "length a = length b \<Longrightarrow> xor_bytes a b = map2 (XOR) a b"
  by (auto simp: xor_bytes_def intro!: nth_equalityI)

lemma xor_accumulate_snoc:
  "us \<noteq> [] \<Longrightarrow> xor_accumulate (us @ [u]) = xor_bytes (xor_accumulate us) u"
  by (cases us) (simp_all add: xor_accumulate_def)

lemma hmac_round_Suc: "0 < k \<Longrightarrow> hmac_round mac salt (Suc k) = mac (hmac_round mac salt k)"
  by (cases k) simp_all

lemma pbkdf2_block_Suc:
  assumes "0 < k"
  shows "pbkdf2_block mac salt (Suc k) =
     xor_bytes (pbkdf2_block mac salt k) (hmac_round mac salt (Suc k))"
proof -
  have split: "[1..<Suc (Suc k)] = [1..<Suc k] @ [Suc k]"
    by (rule upt_Suc_append) simp
  have "[1..<Suc k] \<noteq> []"
    using assms by simp
  then have ne: "map (hmac_round mac salt) [1..<Suc k] \<noteq> []"
    by (simp only: map_is_Nil_conv not_False_eq_True)
  have "pbkdf2_block mac salt (Suc k) =
        xor_accumulate (map (hmac_round mac salt) [1..<Suc k] @ [hmac_round mac salt (Suc k)])"
    unfolding pbkdf2_block_def split by simp
  also have "\<dots> = xor_bytes (xor_accumulate (map (hmac_round mac salt) [1..<Suc k]))
                       (hmac_round mac salt (Suc k))"
    by (rule xor_accumulate_snoc [OF ne])
  finally show ?thesis
    unfolding pbkdf2_block_def .
qed

text \<open>The invariant of the loop: entering the test with counter \<open>i\<close>, \<open>ui1\<close> is round
  \<open>i + 1\<close> and \<open>ui\<close> is the accumulation of the rounds 1 to \<open>i + 1\<close>.\<close>

lemma hi_loop_invariant:
  "Suc i \<le> n \<Longrightarrow>
   hi_loop mac n i (hmac_round mac salt (Suc i)) (pbkdf2_block mac salt (Suc i)) =
   pbkdf2_block mac salt n"
proof (induction "n - Suc i" arbitrary: i)
  case 0
  then have "Suc i = n" by simp
  then show ?case by (subst hi_loop.simps) auto
next
  case (Suc d)
  then have lt: "i < n - 1" by simp
  have step: "hi_loop mac n (Suc i) (hmac_round mac salt (Suc (Suc i)))
                (pbkdf2_block mac salt (Suc (Suc i))) = pbkdf2_block mac salt n"
    using Suc by (intro Suc.hyps(1)) simp_all
  have "hi_loop mac n i (hmac_round mac salt (Suc i)) (pbkdf2_block mac salt (Suc i)) =
        hi_loop mac n (Suc i) (mac (hmac_round mac salt (Suc i)))
          (xor_bytes (pbkdf2_block mac salt (Suc i)) (mac (hmac_round mac salt (Suc i))))"
    using lt by (subst hi_loop.simps) (simp add: Let_def)
  also have "\<dots> = hi_loop mac n (Suc i) (hmac_round mac salt (Suc (Suc i)))
                (pbkdf2_block mac salt (Suc (Suc i)))"
    by (simp add: pbkdf2_block_Suc)
  also note step
  finally show ?case .
qed

lemma hi_loop_pbkdf2:
  assumes "1 \<le> n"
  shows "hi_loop mac n 0 (mac (salt @ [0, 0, 0, 1])) (mac (salt @ [0, 0, 0, 1])) =
         pbkdf2_block mac salt n"
proof -
  have b: "pbkdf2_block mac salt (Suc 0) = mac (salt @ [0, 0, 0, 1])"
    by (simp add: pbkdf2_block_def xor_accumulate_def)
  have r: "hmac_round mac salt (Suc 0) = mac (salt @ [0, 0, 0, 1])" by simp
  have "Suc 0 \<le> n" using assms by simp
  from hi_loop_invariant [OF this, of mac salt] show ?thesis
    unfolding b r .
qed

subsection \<open>What validation accepted\<close>

lemma validate_Inr:
  assumes "validate cn attrs = Inr (nonce, salt, iterationText)"
  shows "attrs (js ''r'') = Some nonce \<and> attrs (js ''s'') = Some salt \<and>
         attrs (js ''i'') = Some iterationText \<and>
         nonce_re nonce \<and> salt \<noteq> [] \<and> salt_re salt \<and> iteration_re iterationText \<and>
         startsWith nonce cn \<and> length nonce \<noteq> length cn"
proof -
  obtain r where r: "attrs (js ''r'') = Some r"
    using assms by (cases "attrs (js ''r'')") (simp_all add: validate_def)
  obtain s where s: "attrs (js ''s'') = Some s"
    using assms by (cases "attrs (js ''s'')") (simp_all add: validate_def Let_def split: if_splits)
  obtain t where t: "attrs (js ''i'') = Some t"
    using assms by (cases "attrs (js ''i'')") (simp_all add: validate_def Let_def split: if_splits)
  show ?thesis
    using assms unfolding validate_def Let_def r s t by (simp split: if_splits)
qed

lemma digit_value_pos: "0x31 \<le> c \<Longrightarrow> c \<le> 0x39 \<Longrightarrow> Suc 0 \<le> digit_value c"
  by (simp add: digit_value_def word_le_nat_alt)

lemma parseInt_foldl_mono: "a \<le> foldl (\<lambda>n c. 10 * n + digit_value c) a s"
proof (induction s arbitrary: a)
  case Nil
  show ?case by simp
next
  case (Cons c s)
  have "a \<le> 10 * a + digit_value c" by simp
  also have "\<dots> \<le> foldl (\<lambda>n c. 10 * n + digit_value c) (10 * a + digit_value c) s"
    by (rule Cons.IH)
  finally show ?case by simp
qed

lemma iteration_re_positive:
  assumes "iteration_re t"
  shows "1 \<le> parseInt t"
proof (cases t)
  case Nil
  with assms show ?thesis by simp
next
  case (Cons c cs)
  with assms have "1 \<le> digit_value c"
    using digit_value_pos [of c] by simp
  also have "\<dots> \<le> foldl (\<lambda>n c. 10 * n + digit_value c) (digit_value c) cs"
    by (rule parseInt_foldl_mono)
  finally show ?thesis
    using Cons by (simp add: parseInt_def)
qed

subsection \<open>Evaluating the model on a message\<close>

lemma demo_attrPairs:
  "attrPairs (js ''r=rOprNGfwEbeRWgbNEkqO,s=QSXCR+Q6sek8bf92,i=3'') =
   Inr [js ''r'' \<mapsto> js ''rOprNGfwEbeRWgbNEkqO'', js ''s'' \<mapsto> js ''QSXCR+Q6sek8bf92'',
        js ''i'' \<mapsto> js ''3'']"
  by (simp add: attrPairs_def js_def fromEntries_def line_terminator_def)

lemma demo_validate:
  "validate (js ''rOprNGfw'')
     [js ''r'' \<mapsto> js ''rOprNGfwEbeRWgbNEkqO'', js ''s'' \<mapsto> js ''QSXCR+Q6sek8bf92'',
      js ''i'' \<mapsto> js ''3''] =
   Inr (js ''rOprNGfwEbeRWgbNEkqO'', js ''QSXCR+Q6sek8bf92'', js ''3'')"
  by (simp add: validate_def js_def nonce_re_def nonce_unit_def b64_unit_def digit_unit_def
      startsWith_def)

lemma demo_parseInt: "parseInt (js ''3'') = 3"
  by (simp add: parseInt_def js_def digit_value_def)

lemma demo_scram_compute:
  "scram_compute demo_provider (js ''pencil'') (js ''rOprNGfw'') (js ''rOprNGfwEbeRWgbNEkqO'')
     (js ''QSXCR+Q6sek8bf92'') 3 =
   Some \<lparr> saltedPassword = [123, 140, 20], clientKey = [27, 168, 10], storedKey = [10, 168, 27],
          authMessage = js ''n=*,r=rOprNGfw,r=rOprNGfwEbeRWgbNEkqO,s=QSXCR+Q6sek8bf92,i=3,c=biws,r=rOprNGfwEbeRWgbNEkqO'',
          clientFinalMessageWithoutProof = js ''c=biws,r=rOprNGfwEbeRWgbNEkqO'',
          clientProof = [214, 216, 80], serverSignatureBytes = [229, 112, 90] \<rparr>"
  by (simp add: scram_compute_def demo_provider_def js_def hi_loop.simps xor_bytes_def
      serverFirstMessage_def number_toString.simps digit_of_def Let_def)

lemma demo_continue_locals:
  "continue_locals demo_provider demo_client
     (JString (js ''r=rOprNGfwEbeRWgbNEkqO,s=QSXCR+Q6sek8bf92,i=3'')) =
   Inr \<lparr> saltedPassword = [123, 140, 20], clientKey = [27, 168, 10], storedKey = [10, 168, 27],
         authMessage = js ''n=*,r=rOprNGfw,r=rOprNGfwEbeRWgbNEkqO,s=QSXCR+Q6sek8bf92,i=3,c=biws,r=rOprNGfwEbeRWgbNEkqO'',
         clientFinalMessageWithoutProof = js ''c=biws,r=rOprNGfwEbeRWgbNEkqO'',
         clientProof = [214, 216, 80], serverSignatureBytes = [229, 112, 90] \<rparr>"
  unfolding continue_locals_def
  by (simp add: demo_client_def demo_attrPairs demo_validate demo_parseInt demo_scram_compute
      exact_number_def)

subsection \<open>Claim C1\<close>

text \<open>
  Claim C1. For every password string, decoded salt and iteration count \<open>i \<ge> 1\<close> accepted
  by validation, the \<open>saltedPassword\<close> that \<open>_handleAuthSASLContinue\<close> computes is the
  XOR-accumulation of \<open>i\<close> rounds of HMAC keyed by the password, the first round on
  \<open>salt || 0x00000001\<close> and each later round on the output of the round before: PBKDF2
  over HMAC with one block. The iteration count accepted by validation is at least 1.
\<close>

theorem saltedPassword_is_pbkdf2_block:
  assumes "password this = JString pw"
    and "attrPairs serverData = Inr attrs"
    and "validate (clientNonce (saslSession this)) attrs = Inr (nonce, salt, iterationText)"
    and "subtle_importKey P (enc_encode P pw) = Some key"
    and "continue_locals P this (JString serverData) = Inr l"
  shows "1 \<le> parseInt iterationText \<and>
         saltedPassword l =
           pbkdf2_block (subtle_sign P key) (from_base64 P salt) (parseInt iterationText)"
proof -
  from continue_locals_Inr [OF assms(5)] assms(1-3)
  have c: "scram_compute P pw (clientNonce (saslSession this)) nonce salt
             (parseInt iterationText) = Some l"
    by auto
  from validate_Inr [OF assms(3)] have "iteration_re iterationText"
    by simp
  then have pos: "1 \<le> parseInt iterationText"
    by (rule iteration_re_positive)
  from scram_compute_Some [OF c] assms(4)
  have "saltedPassword l =
          hi_loop (subtle_sign P key) (parseInt iterationText) 0
            (subtle_sign P key (from_base64 P salt @ [0, 0, 0, 1]))
            (subtle_sign P key (from_base64 P salt @ [0, 0, 0, 1]))"
    by auto
  also have "\<dots> = pbkdf2_block (subtle_sign P key) (from_base64 P salt)
                      (parseInt iterationText)"
    by (rule hi_loop_pbkdf2 [OF pos])
  finally show ?thesis
    using pos by simp
qed

theorem saltedPassword_is_pbkdf2_block_witness:
  "\<exists>l. continue_locals demo_provider demo_client
          (JString (js ''r=rOprNGfwEbeRWgbNEkqO,s=QSXCR+Q6sek8bf92,i=3'')) = Inr l \<and>
       1 \<le> parseInt (js ''3'') \<and>
       saltedPassword l =
         pbkdf2_block (subtle_sign demo_provider (enc_encode demo_provider (js ''pencil'')))
           (from_base64 demo_provider (js ''QSXCR+Q6sek8bf92'')) (parseInt (js ''3'')) \<and>
       saltedPassword l = [123, 140, 20]"
proof -
  have pw: "password demo_client = JString (js ''pencil'')"
    by (simp add: demo_client_def)
  have cn: "clientNonce (saslSession demo_client) = js ''rOprNGfw''"
    by (simp add: demo_client_def)
  have key: "subtle_importKey demo_provider (enc_encode demo_provider (js ''pencil'')) =
             Some (enc_encode demo_provider (js ''pencil''))"
    by (simp add: demo_provider_def js_def)
  note v = demo_validate [folded cn]
  from saltedPassword_is_pbkdf2_block [OF pw demo_attrPairs v key demo_continue_locals]
  show ?thesis
    using demo_continue_locals by simp
qed


subsection \<open>Numbers and their decimal text\<close>

lemma exact_number_bound: "exact_number n = (n \<le> 2 ^ 53)"
  by (simp add: exact_number_def)

lemma parseInt_snoc: "parseInt (s @ [c]) = 10 * parseInt s + digit_value c"
  by (simp add: parseInt_def)

lemma digit_unit_value:
  assumes "digit_unit c"
  shows "digit_value c < 10" and "digit_of (digit_value c) = c"
proof -
  from assms have b: "48 \<le> unat c" "unat c \<le> 57"
    by (simp_all add: digit_unit_def word_le_nat_alt)
  then show "digit_value c < 10"
    by (simp add: digit_value_def)
  from b have "48 + (unat c - 48) = unat c"
    by simp
  then show "digit_of (digit_value c) = c"
    by (simp add: digit_of_def digit_value_def)
qed

lemma number_toString_digit: "d < 10 \<Longrightarrow> number_toString d = [digit_of d]"
  by (subst number_toString.simps) simp

lemma number_toString_step:
  assumes "0 < n" and "d < 10"
  shows "number_toString (10 * n + d) = number_toString n @ [digit_of d]"
proof -
  have "\<not> 10 * n + d < 10" using assms by simp
  moreover have "(10 * n + d) div 10 = n" using assms by simp
  moreover have "(10 * n + d) mod 10 = d" using assms by simp
  ultimately show ?thesis
    by (subst number_toString.simps) simp
qed

lemma iteration_re_snoc:
  assumes "iteration_re (s @ [c])"
  shows "digit_unit c" and "s \<noteq> [] \<Longrightarrow> iteration_re s"
proof -
  show "digit_unit c"
    using assms by (cases s) (simp_all add: digit_unit_def word_le_nat_alt)
  show "s \<noteq> [] \<Longrightarrow> iteration_re s"
    using assms by (cases s) simp_all
qed

text \<open>Printing the parsed iteration count gives the text back: the pattern admits no
  leading zero.\<close>

lemma number_toString_parseInt:
  "iteration_re t \<Longrightarrow> number_toString (parseInt t) = t"
proof (induction t rule: rev_induct)
  case Nil
  then show ?case by simp
next
  case (snoc c s)
  note d = iteration_re_snoc(1) [OF snoc.prems]
  show ?case
  proof (cases "s = []")
    case True
    have "parseInt [c] = digit_value c"
      by (simp add: parseInt_def)
    with True show ?thesis
      using digit_unit_value [OF d] by (simp add: number_toString_digit)
  next
    case False
    then have s: "iteration_re s"
      by (rule iteration_re_snoc(2) [OF snoc.prems])
    then have "0 < parseInt s"
      using iteration_re_positive [of s] by simp
    then have "number_toString (10 * parseInt s + digit_value c) =
               number_toString (parseInt s) @ [digit_of (digit_value c)]"
      using digit_unit_value(1) [OF d] by (rule number_toString_step)
    then show ?thesis
      using snoc.IH [OF s] digit_unit_value(2) [OF d] by (simp add: parseInt_snoc)
  qed
qed

subsection \<open>The effects of a successful step\<close>

lemma handleAuthSASLContinue_Inr:
  assumes "continue_locals P this msg_data = Inr l"
  shows "handleAuthSASLContinue P this msg_data =
         (Returned,
          this \<lparr> saslSession := (saslSession this)
                   \<lparr> message := js ''SASLResponse'',
                     serverSignature := Some (to_base64 P (serverSignatureBytes l)),
                     response := Some (clientFinalMessageWithoutProof l @ js '',p='' @
                                       clientProof l) \<rparr>,
                 sentClientFinal := sentClientFinal this @
                   [clientFinalMessageWithoutProof l @ js '',p='' @ clientProof l] \<rparr>)"
  using assms by (simp add: handleAuthSASLContinue_def Let_def)

lemma handleAuthSASLContinue_Inl:
  assumes "continue_locals P this msg_data = Inl out"
  shows "handleAuthSASLContinue P this msg_data = (out, this)"
  using assms by (simp add: handleAuthSASLContinue_def)

lemma continue_locals_not_Returned: "continue_locals P this msg_data \<noteq> Inl Returned"
  unfolding continue_locals_def Let_def
  by (auto split: jsval.splits if_splits sum.splits prod.splits option.splits)

lemma handleAuthSASLContinue_Returned:
  assumes "handleAuthSASLContinue P this msg_data = (Returned, this')"
  shows "\<exists>l. continue_locals P this msg_data = Inr l"
proof (cases "continue_locals P this msg_data")
  case (Inl out)
  with assms continue_locals_not_Returned [of P this msg_data] show ?thesis
    by (simp add: handleAuthSASLContinue_def)
next
  case (Inr l)
  then show ?thesis by blast
qed

lemma tags_differ: "js ''SASLResponse'' \<noteq> js ''SASLInitialResponse''"
  by (simp add: js_def)

subsection \<open>Claim C2\<close>

text \<open>
  Claim C2, as the spec states it: for every validated server-first message the final
  client message is \<open>clientFinalMessageWithoutProof + ",p=" + clientProof\<close>, with
  \<open>clientProof = base64(clientKey XOR HMAC(storedKey, authMessage))\<close> and \<open>authMessage\<close>
  the concatenation, with commas, of \<open>"n=*,r=" + clientNonce\<close>, the server-first
  message and \<open>"c=biws,r=" + serverNonce\<close>. This fails on a validated message that is
  not the text \<open>r=...,s=...,i=...\<close> alone: the method does not put the message it
  received into \<open>authMessage\<close>, it writes \<open>'r=' + nonce + ',s=' + salt + ',i=' +
  iterations\<close> anew from the parsed attributes (line 134). On the message below, which
  carries a fourth attribute, the method sends the proof bytes 214, 216, 80, and the
  formula of the claim gives 214, 42, 84.
\<close>

theorem clientFinal_uses_received_message_counterexample:
  "sentClientFinal (snd (handleAuthSASLContinue demo_provider demo_client
       (JString (js ''r=rOprNGfwEbeRWgbNEkqO,s=QSXCR+Q6sek8bf92,i=3,x=1'')))) =
     [js ''c=biws,r=rOprNGfwEbeRWgbNEkqO,p='' @ [214, 216, 80]] \<and>
   continue_locals demo_provider demo_client
       (JString (js ''r=rOprNGfwEbeRWgbNEkqO,s=QSXCR+Q6sek8bf92,i=3,x=1'')) =
     Inr \<lparr> saltedPassword = [123, 140, 20], clientKey = [27, 168, 10],
           storedKey = [10, 168, 27],
           authMessage = js ''n=*,r=rOprNGfw,r=rOprNGfwEbeRWgbNEkqO,s=QSXCR+Q6sek8bf92,i=3,c=biws,r=rOprNGfwEbeRWgbNEkqO'',
           clientFinalMessageWithoutProof = js ''c=biws,r=rOprNGfwEbeRWgbNEkqO'',
           clientProof = [214, 216, 80], serverSignatureBytes = [229, 112, 90] \<rparr> \<and>
   spec_clientFinal demo_provider [27, 168, 10] [10, 168, 27]
       (spec_authMessage (js ''rOprNGfw'')
          (js ''r=rOprNGfwEbeRWgbNEkqO,s=QSXCR+Q6sek8bf92,i=3,x=1'')
          (js ''rOprNGfwEbeRWgbNEkqO''))
       (js ''rOprNGfwEbeRWgbNEkqO'') =
     Some (js ''c=biws,r=rOprNGfwEbeRWgbNEkqO,p='' @ [214, 42, 84]) \<and>
   Some (last (sentClientFinal (snd (handleAuthSASLContinue demo_provider demo_client
       (JString (js ''r=rOprNGfwEbeRWgbNEkqO,s=QSXCR+Q6sek8bf92,i=3,x=1'')))))) \<noteq>
   spec_clientFinal demo_provider [27, 168, 10] [10, 168, 27]
       (spec_authMessage (js ''rOprNGfw'')
          (js ''r=rOprNGfwEbeRWgbNEkqO,s=QSXCR+Q6sek8bf92,i=3,x=1'')
          (js ''rOprNGfwEbeRWgbNEkqO''))
       (js ''rOprNGfwEbeRWgbNEkqO'')"
proof -
  have a: "attrPairs (js ''r=rOprNGfwEbeRWgbNEkqO,s=QSXCR+Q6sek8bf92,i=3,x=1'') =
     Inr [js ''r'' \<mapsto> js ''rOprNGfwEbeRWgbNEkqO'', js ''s'' \<mapsto> js ''QSXCR+Q6sek8bf92'',
          js ''i'' \<mapsto> js ''3'', js ''x'' \<mapsto> js ''1'']"
    by (simp add: attrPairs_def js_def fromEntries_def line_terminator_def)
  have v: "validate (js ''rOprNGfw'')
     [js ''r'' \<mapsto> js ''rOprNGfwEbeRWgbNEkqO'', js ''s'' \<mapsto> js ''QSXCR+Q6sek8bf92'',
      js ''i'' \<mapsto> js ''3'', js ''x'' \<mapsto> js ''1''] =
     Inr (js ''rOprNGfwEbeRWgbNEkqO'', js ''QSXCR+Q6sek8bf92'', js ''3'')"
    by (simp add: validate_def js_def nonce_re_def nonce_unit_def b64_unit_def digit_unit_def
        startsWith_def)
  have l: "continue_locals demo_provider demo_client
       (JString (js ''r=rOprNGfwEbeRWgbNEkqO,s=QSXCR+Q6sek8bf92,i=3,x=1'')) =
     Inr \<lparr> saltedPassword = [123, 140, 20], clientKey = [27, 168, 10],
           storedKey = [10, 168, 27],
           authMessage = js ''n=*,r=rOprNGfw,r=rOprNGfwEbeRWgbNEkqO,s=QSXCR+Q6sek8bf92,i=3,c=biws,r=rOprNGfwEbeRWgbNEkqO'',
           clientFinalMessageWithoutProof = js ''c=biws,r=rOprNGfwEbeRWgbNEkqO'',
           clientProof = [214, 216, 80], serverSignatureBytes = [229, 112, 90] \<rparr>"
    unfolding continue_locals_def
    by (simp add: demo_client_def a v demo_parseInt demo_scram_compute exact_number_def)
  have s: "sentClientFinal (snd (handleAuthSASLContinue demo_provider demo_client
       (JString (js ''r=rOprNGfwEbeRWgbNEkqO,s=QSXCR+Q6sek8bf92,i=3,x=1'')))) =
     [js ''c=biws,r=rOprNGfwEbeRWgbNEkqO,p='' @ [214, 216, 80]]"
    unfolding handleAuthSASLContinue_Inr [OF l] by (simp add: demo_client_def js_def)
  have c: "spec_clientFinal demo_provider [27, 168, 10] [10, 168, 27]
       (spec_authMessage (js ''rOprNGfw'')
          (js ''r=rOprNGfwEbeRWgbNEkqO,s=QSXCR+Q6sek8bf92,i=3,x=1'')
          (js ''rOprNGfwEbeRWgbNEkqO''))
       (js ''rOprNGfwEbeRWgbNEkqO'') =
     Some (js ''c=biws,r=rOprNGfwEbeRWgbNEkqO,p='' @ [214, 42, 84])"
    by (simp add: spec_clientFinal_def spec_clientProof_def HMAC_def spec_authMessage_def
        demo_provider_def js_def xor_bytes_def)
  have d: "Some (last (sentClientFinal (snd (handleAuthSASLContinue demo_provider demo_client
       (JString (js ''r=rOprNGfwEbeRWgbNEkqO,s=QSXCR+Q6sek8bf92,i=3,x=1'')))))) \<noteq>
   spec_clientFinal demo_provider [27, 168, 10] [10, 168, 27]
       (spec_authMessage (js ''rOprNGfw'')
          (js ''r=rOprNGfwEbeRWgbNEkqO,s=QSXCR+Q6sek8bf92,i=3,x=1'')
          (js ''rOprNGfwEbeRWgbNEkqO''))
       (js ''rOprNGfwEbeRWgbNEkqO'')"
    unfolding s c by simp
  from s l c d show ?thesis by (intro conjI)
qed

text \<open>
  Claim C2, amended: for every validated server-first message the final client message is
  \<open>clientFinalMessageWithoutProof + ",p=" + clientProof\<close>, with \<open>clientProof =
  base64(clientKey XOR HMAC(storedKey, authMessage))\<close> and \<open>authMessage\<close> the
  concatenation, with commas, of \<open>"n=*,r=" + clientNonce\<close>, the text \<open>"r=" + nonce +
  ",s=" + salt + ",i=" + iterations\<close> written from the parsed attributes, and
  \<open>"c=biws,r=" + serverNonce\<close>; that text is the server-first message itself when the
  message consists of these three attributes in this order.
\<close>

theorem clientFinal_message:
  assumes "attrPairs serverData = Inr attrs"
    and "validate (clientNonce (saslSession this)) attrs = Inr (nonce, salt, iterationText)"
    and "continue_locals P this (JString serverData) = Inr l"
  shows "sentClientFinal (snd (handleAuthSASLContinue P this (JString serverData))) =
           sentClientFinal this @ [js ''c=biws,r='' @ nonce @ js '',p='' @ clientProof l] \<and>
         spec_clientFinal P (clientKey l) (storedKey l)
           (spec_authMessage (clientNonce (saslSession this))
              (js ''r='' @ nonce @ js '',s='' @ salt @ js '',i='' @
               number_toString (parseInt iterationText))
              nonce)
           nonce =
           Some (js ''c=biws,r='' @ nonce @ js '',p='' @ clientProof l) \<and>
         (serverData = js ''r='' @ nonce @ js '',s='' @ salt @ js '',i='' @ iterationText \<longrightarrow>
          js ''r='' @ nonce @ js '',s='' @ salt @ js '',i='' @
          number_toString (parseInt iterationText) = serverData)"
proof -
  from continue_locals_Inr [OF assms(3)] assms(1,2)
  obtain pw where c: "scram_compute P pw (clientNonce (saslSession this)) nonce salt
             (parseInt iterationText) = Some l"
    by auto
  from scram_compute_Some [OF c] obtain k3 where
    am: "authMessage l = js ''n=*,r='' @ clientNonce (saslSession this) @ js '','' @
           serverFirstMessage nonce salt (parseInt iterationText) @ js '','' @
           js ''c=biws,r='' @ nonce"
    and cf: "clientFinalMessageWithoutProof l = js ''c=biws,r='' @ nonce"
    and k3: "subtle_importKey P (storedKey l) = Some k3"
    and cp: "clientProof l =
             to_base64 P (xor_bytes (clientKey l)
               (subtle_sign P k3 (enc_encode P (authMessage l))))"
    by blast
  have sent: "sentClientFinal (snd (handleAuthSASLContinue P this (JString serverData))) =
           sentClientFinal this @ [js ''c=biws,r='' @ nonce @ js '',p='' @ clientProof l]"
    by (simp add: handleAuthSASLContinue_Inr [OF assms(3)] cf)
  have am': "spec_authMessage (clientNonce (saslSession this))
              (js ''r='' @ nonce @ js '',s='' @ salt @ js '',i='' @
               number_toString (parseInt iterationText)) nonce = authMessage l"
    by (simp add: spec_authMessage_def am serverFirstMessage_def)
  have fin: "spec_clientFinal P (clientKey l) (storedKey l) (authMessage l) nonce =
             Some (js ''c=biws,r='' @ nonce @ js '',p='' @ clientProof l)"
    unfolding spec_clientFinal_def spec_clientProof_def HMAC_def
    by (simp add: k3 cp)
  from validate_Inr [OF assms(2)] have "iteration_re iterationText"
    by simp
  then have "number_toString (parseInt iterationText) = iterationText"
    by (rule number_toString_parseInt)
  with sent am' fin show ?thesis
    by simp
qed

theorem clientFinal_message_witness:
  "sentClientFinal (snd (handleAuthSASLContinue demo_provider demo_client
       (JString (js ''r=rOprNGfwEbeRWgbNEkqO,s=QSXCR+Q6sek8bf92,i=3'')))) =
     [js ''c=biws,r=rOprNGfwEbeRWgbNEkqO,p='' @ [214, 216, 80]] \<and>
   spec_clientFinal demo_provider [27, 168, 10] [10, 168, 27]
       (spec_authMessage (js ''rOprNGfw'')
          (js ''r=rOprNGfwEbeRWgbNEkqO,s=QSXCR+Q6sek8bf92,i=3'')
          (js ''rOprNGfwEbeRWgbNEkqO''))
       (js ''rOprNGfwEbeRWgbNEkqO'') =
     Some (js ''c=biws,r=rOprNGfwEbeRWgbNEkqO,p='' @ [214, 216, 80])"
proof -
  have cn: "clientNonce (saslSession demo_client) = js ''rOprNGfw''"
    by (simp add: demo_client_def)
  have sent0: "sentClientFinal demo_client = []"
    by (simp add: demo_client_def)
  have pieces: "js ''r=rOprNGfwEbeRWgbNEkqO,s=QSXCR+Q6sek8bf92,i=3'' =
        js ''r='' @ js ''rOprNGfwEbeRWgbNEkqO'' @ js '',s='' @ js ''QSXCR+Q6sek8bf92'' @
        js '',i='' @ js ''3''"
    by (simp add: js_def)
  note v = demo_validate [folded cn]
  note w = clientFinal_message [OF demo_attrPairs v demo_continue_locals, unfolded cn sent0]
  from w have same: "js ''r='' @ js ''rOprNGfwEbeRWgbNEkqO'' @ js '',s='' @
      js ''QSXCR+Q6sek8bf92'' @ js '',i='' @ number_toString (parseInt (js ''3'')) =
      js ''r=rOprNGfwEbeRWgbNEkqO,s=QSXCR+Q6sek8bf92,i=3''"
    using pieces by blast
  from w have sent: "sentClientFinal (snd (handleAuthSASLContinue demo_provider demo_client
       (JString (js ''r=rOprNGfwEbeRWgbNEkqO,s=QSXCR+Q6sek8bf92,i=3'')))) =
     [js ''c=biws,r='' @ js ''rOprNGfwEbeRWgbNEkqO'' @ js '',p='' @ [214, 216, 80]]"
    by simp
  from w have fin: "spec_clientFinal demo_provider [27, 168, 10] [10, 168, 27]
       (spec_authMessage (js ''rOprNGfw'')
          (js ''r=rOprNGfwEbeRWgbNEkqO,s=QSXCR+Q6sek8bf92,i=3'')
          (js ''rOprNGfwEbeRWgbNEkqO''))
       (js ''rOprNGfwEbeRWgbNEkqO'') =
     Some (js ''c=biws,r='' @ js ''rOprNGfwEbeRWgbNEkqO'' @ js '',p='' @ [214, 216, 80])"
    unfolding same by simp
  have glue: "js ''c=biws,r='' @ js ''rOprNGfwEbeRWgbNEkqO'' @ js '',p='' @ [214, 216, 80] =
        js ''c=biws,r=rOprNGfwEbeRWgbNEkqO,p='' @ [214, 216, 80]"
    by (simp add: js_def)
  from sent fin show ?thesis
    unfolding glue by (intro conjI)
qed


subsection \<open>Claim C4\<close>

text \<open>
  Claim C4. After a successful step of the exchange the expected server signature
  \<open>base64(HMAC(HMAC(saltedPassword, "Server Key"), authMessage))\<close> is retained in the
  session, and a server final message whose signature is not this value aborts instead
  of being ignored. The first half is the method's assignment of line 149; the second half
  is about the handling of the server's final message, \<open>handleAuthSASLFinal\<close>, which
  is modelled from the spec.
\<close>

theorem serverSignature_retained_and_checked:
  assumes "continue_locals P this msg_data = Inr l"
    and "this' = snd (handleAuthSASLContinue P this msg_data)"
  shows "fst (handleAuthSASLContinue P this msg_data) = Returned \<and>
         serverSignature (saslSession this') =
           spec_serverSignature P (saltedPassword l) (authMessage l) \<and>
         serverSignature (saslSession this') \<noteq> None \<and>
         (\<forall>sig. Some sig \<noteq> spec_serverSignature P (saltedPassword l) (authMessage l) \<longrightarrow>
                handleAuthSASLFinal this' sig = Aborted_signature_mismatch)"
proof -
  from continue_locals_Inr [OF assms(1)]
  obtain pw nonce salt n where
    c: "scram_compute P pw (clientNonce (saslSession this)) nonce salt n = Some l"
    by blast
  from scram_compute_Some [OF c] obtain k4 k5 where
    k4: "subtle_importKey P (saltedPassword l) = Some k4"
    and k5: "subtle_importKey P (subtle_sign P k4 (enc_encode P (js ''Server Key''))) = Some k5"
    and sb: "serverSignatureBytes l = subtle_sign P k5 (enc_encode P (authMessage l))"
    by blast
  have spec: "spec_serverSignature P (saltedPassword l) (authMessage l) =
              Some (to_base64 P (serverSignatureBytes l))"
    unfolding spec_serverSignature_def HMAC_def by (simp add: k4 k5 sb)
  have kept: "serverSignature (saslSession this') = Some (to_base64 P (serverSignatureBytes l))"
    unfolding assms(2) handleAuthSASLContinue_Inr [OF assms(1)] by simp
  have ret: "fst (handleAuthSASLContinue P this msg_data) = Returned"
    unfolding handleAuthSASLContinue_Inr [OF assms(1)] by simp
  show ?thesis
    using ret unfolding kept spec handleAuthSASLFinal_def by auto
qed

theorem serverSignature_retained_and_checked_witness:
  "fst (handleAuthSASLContinue demo_provider demo_client
       (JString (js ''r=rOprNGfwEbeRWgbNEkqO,s=QSXCR+Q6sek8bf92,i=3''))) = Returned \<and>
   serverSignature (saslSession (snd (handleAuthSASLContinue demo_provider demo_client
       (JString (js ''r=rOprNGfwEbeRWgbNEkqO,s=QSXCR+Q6sek8bf92,i=3''))))) =
     Some [229, 112, 90] \<and>
   handleAuthSASLFinal (snd (handleAuthSASLContinue demo_provider demo_client
       (JString (js ''r=rOprNGfwEbeRWgbNEkqO,s=QSXCR+Q6sek8bf92,i=3'')))) [229, 112, 91] =
     Aborted_signature_mismatch"
proof -
  have spec: "spec_serverSignature demo_provider [123, 140, 20]
      (js ''n=*,r=rOprNGfw,r=rOprNGfwEbeRWgbNEkqO,s=QSXCR+Q6sek8bf92,i=3,c=biws,r=rOprNGfwEbeRWgbNEkqO'') =
      Some [229, 112, 90]"
    by (simp add: spec_serverSignature_def HMAC_def demo_provider_def js_def)
  have other: "Some [229, 112, 91] \<noteq> (Some [229, 112, 90] :: jsstring option)"
    by simp
  note w = serverSignature_retained_and_checked [OF demo_continue_locals refl]
  from w have "fst (handleAuthSASLContinue demo_provider demo_client
       (JString (js ''r=rOprNGfwEbeRWgbNEkqO,s=QSXCR+Q6sek8bf92,i=3''))) = Returned"
    by blast
  moreover from w have "serverSignature (saslSession (snd (handleAuthSASLContinue
       demo_provider demo_client
       (JString (js ''r=rOprNGfwEbeRWgbNEkqO,s=QSXCR+Q6sek8bf92,i=3''))))) =
     Some [229, 112, 90]"
    using spec by simp
  moreover from w have "handleAuthSASLFinal (snd (handleAuthSASLContinue demo_provider
       demo_client (JString (js ''r=rOprNGfwEbeRWgbNEkqO,s=QSXCR+Q6sek8bf92,i=3''))))
       [229, 112, 91] = Aborted_signature_mismatch"
    using spec other by simp
  ultimately show ?thesis
    by (intro conjI)
qed

subsection \<open>Claim C9\<close>

text \<open>
  Claim C9. When the session's message tag is not \<open>'SASLInitialResponse'\<close>, or the
  configured password is not a string, or the server data is not a string, the method
  throws \<open>Error('SASL: protocol error')\<close>, whatever the cryptographic provider is (it is
  not asked), and the client is as before: nothing is sent. A step that returns sets the
  tag to \<open>'SASLResponse'\<close>, so a second call on the resulting client throws the protocol
  error.
\<close>

theorem protocol_error_guard:
  "(message (saslSession this) \<noteq> js ''SASLInitialResponse'' \<or> password this = JOther \<or>
    msg_data = JOther \<longrightarrow>
      handleAuthSASLContinue P this msg_data = (Threw SASL_protocol_error, this)) \<and>
   (handleAuthSASLContinue P this msg_data = (Returned, this') \<longrightarrow>
      message (saslSession this') = js ''SASLResponse'' \<and>
      handleAuthSASLContinue P2 this' msg_data2 = (Threw SASL_protocol_error, this'))"
proof (intro conjI impI)
  assume "message (saslSession this) \<noteq> js ''SASLInitialResponse'' \<or> password this = JOther \<or>
    msg_data = JOther"
  then have "continue_locals P this msg_data = Inl (Threw SASL_protocol_error)"
    unfolding continue_locals_def Let_def by (auto split: jsval.splits)
  then show "handleAuthSASLContinue P this msg_data = (Threw SASL_protocol_error, this)"
    by (rule handleAuthSASLContinue_Inl)
next
  assume r: "handleAuthSASLContinue P this msg_data = (Returned, this')"
  then obtain l where l: "continue_locals P this msg_data = Inr l"
    using handleAuthSASLContinue_Returned by blast
  from r show tag: "message (saslSession this') = js ''SASLResponse''"
    unfolding handleAuthSASLContinue_Inr [OF l] by auto
  then have "message (saslSession this') \<noteq> js ''SASLInitialResponse''"
    using tags_differ by simp
  then have "continue_locals P2 this' msg_data2 = Inl (Threw SASL_protocol_error)"
    unfolding continue_locals_def Let_def by (auto split: jsval.splits)
  then show "handleAuthSASLContinue P2 this' msg_data2 = (Threw SASL_protocol_error, this')"
    by (rule handleAuthSASLContinue_Inl)
qed

theorem protocol_error_guard_witness:
  "handleAuthSASLContinue demo_provider (demo_client \<lparr> password := JOther \<rparr>)
     (JString (js ''r=rOprNGfwEbeRWgbNEkqO,s=QSXCR+Q6sek8bf92,i=3'')) =
     (Threw SASL_protocol_error, demo_client \<lparr> password := JOther \<rparr>) \<and>
   fst (handleAuthSASLContinue demo_provider demo_client
     (JString (js ''r=rOprNGfwEbeRWgbNEkqO,s=QSXCR+Q6sek8bf92,i=3''))) = Returned \<and>
   handleAuthSASLContinue demo_provider
     (snd (handleAuthSASLContinue demo_provider demo_client
        (JString (js ''r=rOprNGfwEbeRWgbNEkqO,s=QSXCR+Q6sek8bf92,i=3''))))
     (JString (js ''r=rOprNGfwEbeRWgbNEkqO,s=QSXCR+Q6sek8bf92,i=3'')) =
     (Threw SASL_protocol_error,
      snd (handleAuthSASLContinue demo_provider demo_client
        (JString (js ''r=rOprNGfwEbeRWgbNEkqO,s=QSXCR+Q6sek8bf92,i=3''))))"
proof -
  have other: "password (demo_client \<lparr> password := JOther \<rparr>) = JOther"
    by simp
  have first: "handleAuthSASLContinue demo_provider (demo_client \<lparr> password := JOther \<rparr>)
     (JString (js ''r=rOprNGfwEbeRWgbNEkqO,s=QSXCR+Q6sek8bf92,i=3'')) =
     (Threw SASL_protocol_error, demo_client \<lparr> password := JOther \<rparr>)"
    using protocol_error_guard [where this = "demo_client \<lparr> password := JOther \<rparr>"] other
    by blast
  have ret: "fst (handleAuthSASLContinue demo_provider demo_client
     (JString (js ''r=rOprNGfwEbeRWgbNEkqO,s=QSXCR+Q6sek8bf92,i=3''))) = Returned"
    unfolding handleAuthSASLContinue_Inr [OF demo_continue_locals] by simp
  then have pair: "handleAuthSASLContinue demo_provider demo_client
     (JString (js ''r=rOprNGfwEbeRWgbNEkqO,s=QSXCR+Q6sek8bf92,i=3'')) =
     (Returned, snd (handleAuthSASLContinue demo_provider demo_client
        (JString (js ''r=rOprNGfwEbeRWgbNEkqO,s=QSXCR+Q6sek8bf92,i=3''))))"
    by (metis prod.collapse)
  have second: "handleAuthSASLContinue demo_provider
     (snd (handleAuthSASLContinue demo_provider demo_client
        (JString (js ''r=rOprNGfwEbeRWgbNEkqO,s=QSXCR+Q6sek8bf92,i=3''))))
     (JString (js ''r=rOprNGfwEbeRWgbNEkqO,s=QSXCR+Q6sek8bf92,i=3'')) =
     (Threw SASL_protocol_error,
      snd (handleAuthSASLContinue demo_provider demo_client
        (JString (js ''r=rOprNGfwEbeRWgbNEkqO,s=QSXCR+Q6sek8bf92,i=3''))))"
    using protocol_error_guard [where this = demo_client and P = demo_provider and
        msg_data = "JString (js ''r=rOprNGfwEbeRWgbNEkqO,s=QSXCR+Q6sek8bf92,i=3'')"] pair
    by blast
  from first ret second show ?thesis
    by (intro conjI)
qed


subsection \<open>The patterns against the checks of the specification\<close>

lemma nonce_re_printable: "nonce_re s \<Longrightarrow> printable_no_comma s"
proof -
  have unit: "\<And>c. nonce_unit c \<Longrightarrow> 0x21 \<le> c \<and> c \<le> 0x7E \<and> c \<noteq> 0x2C"
    unfolding nonce_unit_def by (auto simp: word_le_nat_alt)
  assume "nonce_re s"
  then show ?thesis
    unfolding nonce_re_def printable_no_comma_def list_all_iff using unit by blast
qed

lemma b64_unit_not_pad: "b64_unit c \<Longrightarrow> c \<noteq> 0x3D"
  unfolding b64_unit_def by (auto simp: word_le_nat_alt)

lemma valid_base64_group:
  assumes "b64_unit a" "b64_unit b" "b64_unit c" "b64_unit d" "valid_base64 rest"
  shows "valid_base64 (a # b # c # d # rest)"
  using assms b64_unit_not_pad [of a] b64_unit_not_pad [of b] b64_unit_not_pad [of c]
    b64_unit_not_pad [of d]
  unfolding valid_base64_def Let_def by simp

lemma valid_base64_Nil: "valid_base64 []"
  by (simp add: valid_base64_def)

lemma valid_base64_pad1:
  assumes "b64_unit a" "b64_unit b" "b64_unit c"
  shows "valid_base64 [a, b, c, 0x3D]"
  using assms b64_unit_not_pad [of a] b64_unit_not_pad [of b] b64_unit_not_pad [of c]
  unfolding valid_base64_def Let_def by simp

lemma valid_base64_pad2:
  assumes "b64_unit a" "b64_unit b"
  shows "valid_base64 [a, b, 0x3D, 0x3D]"
  using assms b64_unit_not_pad [of a] b64_unit_not_pad [of b]
  unfolding valid_base64_def Let_def by simp

lemma salt_re_valid_base64: "salt_re s \<Longrightarrow> valid_base64 s"
proof (induction s rule: salt_re.induct)
  case 1
  show ?case by (rule valid_base64_Nil)
next
  case (2 a b c d)
  then consider "b64_unit a \<and> b64_unit b \<and> b64_unit c \<and> b64_unit d"
    | "b64_unit a \<and> b64_unit b \<and> c = 0x3D \<and> d = 0x3D"
    | "b64_unit a \<and> b64_unit b \<and> b64_unit c \<and> d = 0x3D"
    by auto
  then show ?case
  proof cases
    case 1
    then show ?thesis using valid_base64_group [OF _ _ _ _ valid_base64_Nil] by blast
  next
    case 2
    then show ?thesis using valid_base64_pad2 by blast
  next
    case 3
    then show ?thesis using valid_base64_pad1 by blast
  qed
next
  case (3 a b c d v va)
  then show ?case using valid_base64_group by simp
qed simp_all

text \<open>Conversely, the pattern admits every base64 text with padding.\<close>

lemma valid_base64_long:
  assumes "valid_base64 (a # b # c # d # v # va)"
  shows "b64_unit a \<and> b64_unit b \<and> b64_unit c \<and> b64_unit d \<and> valid_base64 (v # va)"
proof -
  from assms have "(5 + length va) mod 4 = 0"
    unfolding valid_base64_def Let_def by simp
  then have len: "length (v # va) mod 4 = 0"
    by simp presburger
  then have four: "4 \<le> length (v # va)"
    by (cases "length (v # va) < 4") auto
  have na: "a \<noteq> 0x3D" "b \<noteq> 0x3D" "c \<noteq> 0x3D" "d \<noteq> 0x3D"
    using assms four unfolding valid_base64_def Let_def
    by (auto split: if_splits)
  with assms len show ?thesis
    unfolding valid_base64_def Let_def by simp
qed

lemma valid_base64_salt_re: "valid_base64 s \<Longrightarrow> salt_re s"
proof (induction s rule: salt_re.induct)
  case 1
  show ?case by simp
next
  case (2 a b c d)
  then show ?case
    unfolding valid_base64_def Let_def
    by (auto split: if_splits)
next
  case (3 a b c d v va)
  from valid_base64_long [OF "3.prems"] "3.IH" show ?case
    by simp
qed (simp_all add: valid_base64_def)

lemma iteration_re_positive_decimal: "iteration_re t \<Longrightarrow> positive_decimal t"
proof (cases t)
  case Nil
  then show "iteration_re t \<Longrightarrow> positive_decimal t" by simp
next
  case (Cons c cs)
  assume re: "iteration_re t"
  with Cons have "digit_unit c"
    by (simp add: digit_unit_def word_le_nat_alt)
  moreover from re Cons have "list_all digit_unit cs"
    by simp
  moreover from re have "0 < parseInt t"
    using iteration_re_positive [of t] by simp
  ultimately show "positive_decimal t"
    using Cons by (simp add: positive_decimal_def)
qed

lemma startsWith_strict_prefix:
  assumes "startsWith nonce cn" and "length nonce \<noteq> length cn"
  shows "strict_prefix cn nonce"
proof -
  from assms(1) have "nonce = cn @ drop (length cn) nonce"
    unfolding startsWith_def by (metis append_take_drop_id)
  then have "prefix cn nonce"
    by (metis prefixI)
  moreover from assms(2) have "cn \<noteq> nonce"
    by auto
  ultimately show ?thesis
    by (simp add: strict_prefix_def)
qed

lemma attr_entries_Inl: "attr_entries ps = Inl e \<Longrightarrow> e = SASL_invalid_attribute_pair"
  by (induction ps arbitrary: e) (auto split: if_splits sum.splits)

subsection \<open>Claim C3\<close>

text \<open>
  Claim C3. For every server-first message in which the nonce attribute \<open>r\<close> is absent or
  is not printable ASCII without a comma, or the salt attribute \<open>s\<close> is absent or is not
  valid base64, or the iteration attribute \<open>i\<close> is absent or is not a positive decimal
  integer, or the server nonce does not strictly extend the client nonce, the method
  throws, for every provider, and leaves the client as it was: no client final message
  is computed or sent. The error is never the provider's, and it is one of the validation
  errors when the guard of line 95 lets the call pass.
\<close>

theorem invalid_server_first_throws:
  assumes "rejected_server_first (clientNonce (saslSession this)) serverData"
  shows "\<exists>e. handleAuthSASLContinue P this (JString serverData) = (Threw e, this) \<and>
             e \<noteq> Provider_DataError \<and>
             (message (saslSession this) = js ''SASLInitialResponse'' \<and>
              password this \<noteq> JOther \<longrightarrow> e \<noteq> SASL_protocol_error)"
proof -
  have "\<exists>e. continue_locals P this (JString serverData) = Inl (Threw e) \<and>
            e \<noteq> Provider_DataError \<and>
            (message (saslSession this) = js ''SASLInitialResponse'' \<and>
             password this \<noteq> JOther \<longrightarrow> e \<noteq> SASL_protocol_error)"
  proof (cases "message (saslSession this) = js ''SASLInitialResponse'' \<and>
                password this \<noteq> JOther")
    case False
    then have "continue_locals P this (JString serverData) = Inl (Threw SASL_protocol_error)"
      unfolding continue_locals_def Let_def by (auto split: jsval.splits)
    with False show ?thesis
      by blast
  next
    case True
    then obtain pw where guard: "message (saslSession this) = js ''SASLInitialResponse''"
      "password this = JString pw"
      by (cases "password this") auto
    show ?thesis
    proof (cases "attrPairs serverData")
      case (Inl e)
      then have "e = SASL_invalid_attribute_pair"
        unfolding attrPairs_def using attr_entries_Inl by (auto split: sum.splits)
      with Inl guard show ?thesis
        unfolding continue_locals_def Let_def by simp
    next
      case (Inr attrs)
      show ?thesis
      proof (cases "validate (clientNonce (saslSession this)) attrs")
        case (Inl e)
        then have "e \<noteq> Provider_DataError" "e \<noteq> SASL_protocol_error"
          unfolding validate_def Let_def by (auto split: if_splits)
        with Inl Inr guard show ?thesis
          unfolding continue_locals_def Let_def by simp
      next
        case (Inr accepted)
        obtain nonce salt iterationText where a: "accepted = (nonce, salt, iterationText)"
          by (cases accepted) auto
        note v = validate_Inr [OF Inr [unfolded a]]
        have attr: "attribute serverData ''r'' = Some nonce"
          "attribute serverData ''s'' = Some salt"
          "attribute serverData ''i'' = Some iterationText"
          using v \<open>attrPairs serverData = Inr attrs\<close> by (simp_all add: attribute_def)
        have "printable_no_comma nonce" "valid_base64 salt" "positive_decimal iterationText"
          "strict_prefix (clientNonce (saslSession this)) nonce"
          using v nonce_re_printable salt_re_valid_base64 iteration_re_positive_decimal
            startsWith_strict_prefix by blast+
        with assms attr have False
          by (simp add: rejected_server_first_def)
        then show ?thesis ..
      qed
    qed
  qed
  then obtain e where "continue_locals P this (JString serverData) = Inl (Threw e)"
    and "e \<noteq> Provider_DataError"
    and "message (saslSession this) = js ''SASLInitialResponse'' \<and>
         password this \<noteq> JOther \<longrightarrow> e \<noteq> SASL_protocol_error"
    by blast
  then show ?thesis
    using handleAuthSASLContinue_Inl by blast
qed

theorem invalid_server_first_throws_witness:
  "rejected_server_first (clientNonce (saslSession demo_client))
     (js ''r=rOprNGfwEbeRWgbNEkqO,s=QSXCR+Q6sek8bf92,i=0'') \<and>
   (\<exists>e. handleAuthSASLContinue demo_provider demo_client
       (JString (js ''r=rOprNGfwEbeRWgbNEkqO,s=QSXCR+Q6sek8bf92,i=0'')) = (Threw e, demo_client) \<and>
     e \<noteq> Provider_DataError \<and> e \<noteq> SASL_protocol_error)"
proof -
  have a: "attrPairs (js ''r=rOprNGfwEbeRWgbNEkqO,s=QSXCR+Q6sek8bf92,i=0'') =
     Inr [js ''r'' \<mapsto> js ''rOprNGfwEbeRWgbNEkqO'', js ''s'' \<mapsto> js ''QSXCR+Q6sek8bf92'',
          js ''i'' \<mapsto> js ''0'']"
    by (simp add: attrPairs_def js_def fromEntries_def line_terminator_def)
  have i: "attribute (js ''r=rOprNGfwEbeRWgbNEkqO,s=QSXCR+Q6sek8bf92,i=0'') ''i'' =
           Some (js ''0'')"
    unfolding attribute_def a by (simp add: js_def)
  have "\<not> positive_decimal (js ''0'')"
    by (simp add: positive_decimal_def parseInt_def js_def digit_value_def)
  with i have r: "rejected_server_first (clientNonce (saslSession demo_client))
     (js ''r=rOprNGfwEbeRWgbNEkqO,s=QSXCR+Q6sek8bf92,i=0'')"
    unfolding rejected_server_first_def by (auto split: option.splits)
  have guard: "message (saslSession demo_client) = js ''SASLInitialResponse'' \<and>
     password demo_client \<noteq> JOther"
    by (simp add: demo_client_def)
  from invalid_server_first_throws [OF r, of demo_provider] guard
  have "\<exists>e. handleAuthSASLContinue demo_provider demo_client
       (JString (js ''r=rOprNGfwEbeRWgbNEkqO,s=QSXCR+Q6sek8bf92,i=0'')) = (Threw e, demo_client) \<and>
     e \<noteq> Provider_DataError \<and> e \<noteq> SASL_protocol_error"
    by blast
  with r show ?thesis
    by (intro conjI)
qed

subsection \<open>Repeated attributes\<close>

lemma attr_entries_all:
  "list_all attr_pair_re ps \<Longrightarrow>
   attr_entries ps = Inr (map (\<lambda>a. (take 1 a, drop 2 a)) ps)"
  by (induction ps) simp_all

lemma fromEntries_snoc: "fromEntries (es @ [(k, v)]) = (fromEntries es)(k \<mapsto> v)"
  by (simp add: fromEntries_def)

lemma last_occurrence_snoc:
  "last_occurrence k (ps @ [a]) =
   (if take 1 a = k then Some (drop 2 a) else last_occurrence k ps)"
  by (simp add: last_occurrence_def)

lemma fromEntries_last_occurrence:
  "fromEntries (map (\<lambda>a. (take 1 a, drop 2 a)) ps) k = last_occurrence k ps"
proof (induction ps rule: rev_induct)
  case Nil
  show ?case by (simp add: fromEntries_def last_occurrence_def)
next
  case (snoc a ps)
  then show ?case
    by (simp add: fromEntries_snoc last_occurrence_snoc)
qed

lemma attrPairs_last_occurrence:
  assumes "list_all attr_pair_re (split_comma serverData)"
  shows "attrPairs serverData = Inr (\<lambda>k. last_occurrence k (split_comma serverData))"
proof -
  have "fromEntries (map (\<lambda>a. (take 1 a, drop 2 a)) (split_comma serverData)) =
        (\<lambda>k. last_occurrence k (split_comma serverData))"
    by (rule ext) (rule fromEntries_last_occurrence)
  then show ?thesis
    by (simp add: attrPairs_def attr_entries_all [OF assms])
qed

lemma validate_reads_three:
  assumes "attrs (js ''r'') = attrs' (js ''r'')"
    and "attrs (js ''s'') = attrs' (js ''s'')"
    and "attrs (js ''i'') = attrs' (js ''i'')"
  shows "validate cn attrs = validate cn attrs'"
  unfolding validate_def using assms by simp

lemma scram_compute_total:
  assumes "\<forall>k. subtle_importKey P k \<noteq> None"
  shows "scram_compute P pw cn nonce salt n \<noteq> None"
proof -
  have k: "\<And>b. \<exists>key. subtle_importKey P b = Some key"
    using assms by auto
  show ?thesis
    unfolding scram_compute_def Let_def
    by (metis (no_types, lifting) k bind.bind_lunit option.distinct(1))
qed

lemma continue_locals_parsed:
  assumes "attrPairs serverData = Inr attrs"
    and "message (saslSession this) = js ''SASLInitialResponse''"
    and "password this = JString pw"
  shows "continue_locals P this (JString serverData) =
     (case validate (clientNonce (saslSession this)) attrs of
        Inl e \<Rightarrow> Inl (Threw e)
      | Inr (nonce, salt, iterationText) \<Rightarrow>
          if \<not> exact_number (parseInt iterationText) then Inl Inexact_iterations
          else (case scram_compute P pw (clientNonce (saslSession this)) nonce salt
                      (parseInt iterationText) of
                  None \<Rightarrow> Inl (Threw Provider_DataError)
                | Some l \<Rightarrow> Inr l))"
  unfolding continue_locals_def Let_def by (simp add: assms)

subsection \<open>Claim C10\<close>

text \<open>
  Claim C10. For a server-first message in which an attribute key occurs more than once,
  each piece well-formed, the parsing of the attributes does not fail, and the value of
  the last occurrence of a key is the value of the attribute. It is the value that is
  validated: an error of the validation of the last occurrences is the error thrown,
  and what validation accepts are the last occurrences of \<open>r\<close>, \<open>s\<close> and \<open>i\<close>. It is
  the value that enters the computation of the proof: the salted password is the PBKDF2
  block of the last salt and iteration count, the auth message, the proof, the message
  sent and the server signature kept are those of the last nonce, salt and iteration
  count; and when the provider accepts every key the call returns. Two messages with the
  same last occurrences of \<open>r\<close>, \<open>s\<close> and \<open>i\<close> give the same result. The theorem is
  about every message whose pieces are well-formed, for a call that passes the guard of
  line 95.
\<close>

theorem last_attribute_wins:
  assumes "list_all attr_pair_re (split_comma serverData)"
    and "message (saslSession this) = js ''SASLInitialResponse''"
    and "password this = JString pw"
  shows "attrPairs serverData = Inr (\<lambda>k. last_occurrence k (split_comma serverData)) \<and>
         (\<forall>e. validate (clientNonce (saslSession this))
                (\<lambda>k. last_occurrence k (split_comma serverData)) = Inl e \<longrightarrow>
              handleAuthSASLContinue P this (JString serverData) = (Threw e, this)) \<and>
         (\<forall>nonce salt iterationText.
            validate (clientNonce (saslSession this))
              (\<lambda>k. last_occurrence k (split_comma serverData)) =
              Inr (nonce, salt, iterationText) \<longrightarrow>
            last_occurrence (js ''r'') (split_comma serverData) = Some nonce \<and>
            last_occurrence (js ''s'') (split_comma serverData) = Some salt \<and>
            last_occurrence (js ''i'') (split_comma serverData) = Some iterationText \<and>
            (exact_number (parseInt iterationText) \<and> (\<forall>k. subtle_importKey P k \<noteq> None) \<longrightarrow>
               fst (handleAuthSASLContinue P this (JString serverData)) = Returned)) \<and>
         (\<forall>l. continue_locals P this (JString serverData) = Inr l \<longrightarrow>
            (\<exists>nonce salt iterationText key.
               last_occurrence (js ''r'') (split_comma serverData) = Some nonce \<and>
               last_occurrence (js ''s'') (split_comma serverData) = Some salt \<and>
               last_occurrence (js ''i'') (split_comma serverData) = Some iterationText \<and>
               printable_no_comma nonce \<and> valid_base64 salt \<and> positive_decimal iterationText \<and>
               strict_prefix (clientNonce (saslSession this)) nonce \<and>
               subtle_importKey P (enc_encode P pw) = Some key \<and>
               saltedPassword l =
                 pbkdf2_block (subtle_sign P key) (from_base64 P salt) (parseInt iterationText) \<and>
               HMAC P (saltedPassword l) (enc_encode P (js ''Client Key'')) = Some (clientKey l) \<and>
               storedKey l = subtle_digest P (clientKey l) \<and>
               authMessage l =
                 spec_authMessage (clientNonce (saslSession this))
                   (js ''r='' @ nonce @ js '',s='' @ salt @ js '',i='' @ iterationText) nonce \<and>
               spec_clientFinal P (clientKey l) (storedKey l) (authMessage l) nonce =
                 Some (js ''c=biws,r='' @ nonce @ js '',p='' @ clientProof l) \<and>
               sentClientFinal (snd (handleAuthSASLContinue P this (JString serverData))) =
                 sentClientFinal this @ [js ''c=biws,r='' @ nonce @ js '',p='' @ clientProof l] \<and>
               serverSignature (saslSession
                   (snd (handleAuthSASLContinue P this (JString serverData)))) =
                 spec_serverSignature P (saltedPassword l) (authMessage l))) \<and>
         (\<forall>other.
            list_all attr_pair_re (split_comma other) \<and>
            last_occurrence (js ''r'') (split_comma other) =
              last_occurrence (js ''r'') (split_comma serverData) \<and>
            last_occurrence (js ''s'') (split_comma other) =
              last_occurrence (js ''s'') (split_comma serverData) \<and>
            last_occurrence (js ''i'') (split_comma other) =
              last_occurrence (js ''i'') (split_comma serverData) \<longrightarrow>
            handleAuthSASLContinue P this (JString other) =
              handleAuthSASLContinue P this (JString serverData))"
proof -
  let ?cn = "clientNonce (saslSession this)"
  let ?last = "\<lambda>k. last_occurrence k (split_comma serverData)"
  have a: "attrPairs serverData = Inr ?last"
    by (rule attrPairs_last_occurrence [OF assms(1)])
  note cl = continue_locals_parsed [OF a assms(2,3), of P]
  have errors: "\<forall>e. validate ?cn ?last = Inl e \<longrightarrow>
      handleAuthSASLContinue P this (JString serverData) = (Threw e, this)"
  proof (intro allI impI)
    fix e
    assume "validate ?cn ?last = Inl e"
    then have "continue_locals P this (JString serverData) = Inl (Threw e)"
      by (simp add: cl)
    then show "handleAuthSASLContinue P this (JString serverData) = (Threw e, this)"
      by (rule handleAuthSASLContinue_Inl)
  qed
  have accepted: "\<forall>nonce salt iterationText.
      validate ?cn ?last = Inr (nonce, salt, iterationText) \<longrightarrow>
      ?last (js ''r'') = Some nonce \<and> ?last (js ''s'') = Some salt \<and>
      ?last (js ''i'') = Some iterationText \<and>
      (exact_number (parseInt iterationText) \<and> (\<forall>k. subtle_importKey P k \<noteq> None) \<longrightarrow>
         fst (handleAuthSASLContinue P this (JString serverData)) = Returned)"
  proof (intro allI impI conjI)
    fix nonce salt iterationText
    assume v: "validate ?cn ?last = Inr (nonce, salt, iterationText)"
    from validate_Inr [OF v]
    show "?last (js ''r'') = Some nonce" "?last (js ''s'') = Some salt"
      "?last (js ''i'') = Some iterationText"
      by simp_all
    assume ok: "exact_number (parseInt iterationText) \<and> (\<forall>k. subtle_importKey P k \<noteq> None)"
    then obtain l where
      "scram_compute P pw ?cn nonce salt (parseInt iterationText) = Some l"
      using scram_compute_total [of P pw ?cn nonce salt "parseInt iterationText"] by auto
    with v ok have "continue_locals P this (JString serverData) = Inr l"
      by (simp add: cl)
    then show "fst (handleAuthSASLContinue P this (JString serverData)) = Returned"
      by (simp add: handleAuthSASLContinue_Inr)
  qed
  have computed: "\<forall>l. continue_locals P this (JString serverData) = Inr l \<longrightarrow>
      (\<exists>nonce salt iterationText key.
         ?last (js ''r'') = Some nonce \<and> ?last (js ''s'') = Some salt \<and>
         ?last (js ''i'') = Some iterationText \<and>
         printable_no_comma nonce \<and> valid_base64 salt \<and> positive_decimal iterationText \<and>
         strict_prefix ?cn nonce \<and>
         subtle_importKey P (enc_encode P pw) = Some key \<and>
         saltedPassword l =
           pbkdf2_block (subtle_sign P key) (from_base64 P salt) (parseInt iterationText) \<and>
         HMAC P (saltedPassword l) (enc_encode P (js ''Client Key'')) = Some (clientKey l) \<and>
         storedKey l = subtle_digest P (clientKey l) \<and>
         authMessage l =
           spec_authMessage ?cn
             (js ''r='' @ nonce @ js '',s='' @ salt @ js '',i='' @ iterationText) nonce \<and>
         spec_clientFinal P (clientKey l) (storedKey l) (authMessage l) nonce =
           Some (js ''c=biws,r='' @ nonce @ js '',p='' @ clientProof l) \<and>
         sentClientFinal (snd (handleAuthSASLContinue P this (JString serverData))) =
           sentClientFinal this @ [js ''c=biws,r='' @ nonce @ js '',p='' @ clientProof l] \<and>
         serverSignature (saslSession
             (snd (handleAuthSASLContinue P this (JString serverData)))) =
           spec_serverSignature P (saltedPassword l) (authMessage l))"
  proof (intro allI impI)
    fix l
    assume l: "continue_locals P this (JString serverData) = Inr l"
    from continue_locals_Inr [OF l] a assms(3)
    obtain nonce salt iterationText where
      v: "validate ?cn ?last = Inr (nonce, salt, iterationText)"
      and c: "scram_compute P pw ?cn nonce salt (parseInt iterationText) = Some l"
      by auto
    note vi = validate_Inr [OF v]
    from scram_compute_Some [OF c] obtain k1 k2 k3 k4 k5 where
      k1: "subtle_importKey P (enc_encode P pw) = Some k1"
      and sp: "saltedPassword l =
             hi_loop (subtle_sign P k1) (parseInt iterationText) 0
               (subtle_sign P k1 (from_base64 P salt @ [0, 0, 0, 1]))
               (subtle_sign P k1 (from_base64 P salt @ [0, 0, 0, 1]))"
      and k2: "subtle_importKey P (saltedPassword l) = Some k2"
      and ck: "clientKey l = subtle_sign P k2 (enc_encode P (js ''Client Key''))"
      and sk: "storedKey l = subtle_digest P (clientKey l)"
      and am: "authMessage l = js ''n=*,r='' @ ?cn @ js '','' @
                 serverFirstMessage nonce salt (parseInt iterationText) @
                 js '','' @ js ''c=biws,r='' @ nonce"
      and cf: "clientFinalMessageWithoutProof l = js ''c=biws,r='' @ nonce"
      and k3: "subtle_importKey P (storedKey l) = Some k3"
      and cp: "clientProof l =
             to_base64 P (xor_bytes (clientKey l)
               (subtle_sign P k3 (enc_encode P (authMessage l))))"
      and k4: "subtle_importKey P (saltedPassword l) = Some k4"
      and k5: "subtle_importKey P (subtle_sign P k4 (enc_encode P (js ''Server Key''))) = Some k5"
      and sb: "serverSignatureBytes l = subtle_sign P k5 (enc_encode P (authMessage l))"
      by blast
    from vi have re: "iteration_re iterationText"
      by simp
    have pos: "1 \<le> parseInt iterationText"
      using re by (rule iteration_re_positive)
    have salted: "saltedPassword l =
        pbkdf2_block (subtle_sign P k1) (from_base64 P salt) (parseInt iterationText)"
      unfolding sp by (rule hi_loop_pbkdf2 [OF pos])
    have ckey: "HMAC P (saltedPassword l) (enc_encode P (js ''Client Key'')) = Some (clientKey l)"
      unfolding HMAC_def by (simp add: k2 ck)
    have amsg: "authMessage l =
        spec_authMessage ?cn
          (js ''r='' @ nonce @ js '',s='' @ salt @ js '',i='' @ iterationText) nonce"
      unfolding am spec_authMessage_def serverFirstMessage_def
      by (simp add: number_toString_parseInt [OF re])
    have fin: "spec_clientFinal P (clientKey l) (storedKey l) (authMessage l) nonce =
        Some (js ''c=biws,r='' @ nonce @ js '',p='' @ clientProof l)"
      unfolding spec_clientFinal_def spec_clientProof_def HMAC_def by (simp add: k3 cp)
    have sent: "sentClientFinal (snd (handleAuthSASLContinue P this (JString serverData))) =
        sentClientFinal this @ [js ''c=biws,r='' @ nonce @ js '',p='' @ clientProof l]"
      by (simp add: handleAuthSASLContinue_Inr [OF l] cf)
    have sig: "serverSignature (saslSession
          (snd (handleAuthSASLContinue P this (JString serverData)))) =
        spec_serverSignature P (saltedPassword l) (authMessage l)"
      unfolding spec_serverSignature_def HMAC_def
      by (simp add: handleAuthSASLContinue_Inr [OF l] k4 k5 sb)
    have checks: "printable_no_comma nonce" "valid_base64 salt"
      "positive_decimal iterationText" "strict_prefix ?cn nonce"
      using vi nonce_re_printable salt_re_valid_base64 iteration_re_positive_decimal
        startsWith_strict_prefix by blast+
    from vi checks k1 salted ckey sk amsg fin sent sig
    show "\<exists>nonce salt iterationText key.
         ?last (js ''r'') = Some nonce \<and> ?last (js ''s'') = Some salt \<and>
         ?last (js ''i'') = Some iterationText \<and>
         printable_no_comma nonce \<and> valid_base64 salt \<and> positive_decimal iterationText \<and>
         strict_prefix ?cn nonce \<and>
         subtle_importKey P (enc_encode P pw) = Some key \<and>
         saltedPassword l =
           pbkdf2_block (subtle_sign P key) (from_base64 P salt) (parseInt iterationText) \<and>
         HMAC P (saltedPassword l) (enc_encode P (js ''Client Key'')) = Some (clientKey l) \<and>
         storedKey l = subtle_digest P (clientKey l) \<and>
         authMessage l =
           spec_authMessage ?cn
             (js ''r='' @ nonce @ js '',s='' @ salt @ js '',i='' @ iterationText) nonce \<and>
         spec_clientFinal P (clientKey l) (storedKey l) (authMessage l) nonce =
           Some (js ''c=biws,r='' @ nonce @ js '',p='' @ clientProof l) \<and>
         sentClientFinal (snd (handleAuthSASLContinue P this (JString serverData))) =
           sentClientFinal this @ [js ''c=biws,r='' @ nonce @ js '',p='' @ clientProof l] \<and>
         serverSignature (saslSession
             (snd (handleAuthSASLContinue P this (JString serverData)))) =
           spec_serverSignature P (saltedPassword l) (authMessage l)"
      by (intro exI [of _ nonce] exI [of _ salt] exI [of _ iterationText] exI [of _ k1]) simp
  qed
  have same: "\<forall>other.
      list_all attr_pair_re (split_comma other) \<and>
      last_occurrence (js ''r'') (split_comma other) = ?last (js ''r'') \<and>
      last_occurrence (js ''s'') (split_comma other) = ?last (js ''s'') \<and>
      last_occurrence (js ''i'') (split_comma other) = ?last (js ''i'') \<longrightarrow>
      handleAuthSASLContinue P this (JString other) =
        handleAuthSASLContinue P this (JString serverData)"
  proof (intro allI impI)
    fix other
    assume o: "list_all attr_pair_re (split_comma other) \<and>
      last_occurrence (js ''r'') (split_comma other) = ?last (js ''r'') \<and>
      last_occurrence (js ''s'') (split_comma other) = ?last (js ''s'') \<and>
      last_occurrence (js ''i'') (split_comma other) = ?last (js ''i'')"
    then have b: "attrPairs other = Inr (\<lambda>k. last_occurrence k (split_comma other))"
      using attrPairs_last_occurrence by blast
    have v: "validate ?cn (\<lambda>k. last_occurrence k (split_comma other)) = validate ?cn ?last"
      using o by (intro validate_reads_three) simp_all
    have "continue_locals P this (JString other) = continue_locals P this (JString serverData)"
      unfolding cl continue_locals_parsed [OF b assms(2,3), of P] v ..
    then show "handleAuthSASLContinue P this (JString other) =
               handleAuthSASLContinue P this (JString serverData)"
      unfolding handleAuthSASLContinue_def by simp
  qed
  from a errors accepted computed same show ?thesis
    by (intro conjI)
qed

theorem last_attribute_wins_witness:
  "attrPairs (js ''r=bad,i=0,r=rOprNGfwEbeRWgbNEkqO,s=QSXCR+Q6sek8bf92,i=3'') =
     Inr (\<lambda>k. last_occurrence k
       (split_comma (js ''r=bad,i=0,r=rOprNGfwEbeRWgbNEkqO,s=QSXCR+Q6sek8bf92,i=3''))) \<and>
   last_occurrence (js ''r'')
       (split_comma (js ''r=bad,i=0,r=rOprNGfwEbeRWgbNEkqO,s=QSXCR+Q6sek8bf92,i=3'')) =
     Some (js ''rOprNGfwEbeRWgbNEkqO'') \<and>
   handleAuthSASLContinue demo_provider demo_client
       (JString (js ''r=rOprNGfwEbeRWgbNEkqO,s=QSXCR+Q6sek8bf92,i=3,i=0'')) =
     (Threw SASL_invalid_iteration_count, demo_client) \<and>
   sentClientFinal (snd (handleAuthSASLContinue demo_provider demo_client
       (JString (js ''r=bad,i=0,r=rOprNGfwEbeRWgbNEkqO,s=QSXCR+Q6sek8bf92,i=3'')))) =
     [js ''c=biws,r=rOprNGfwEbeRWgbNEkqO,p='' @ [214, 216, 80]] \<and>
   serverSignature (saslSession (snd (handleAuthSASLContinue demo_provider demo_client
       (JString (js ''r=bad,i=0,r=rOprNGfwEbeRWgbNEkqO,s=QSXCR+Q6sek8bf92,i=3''))))) =
     Some [229, 112, 90] \<and>
   fst (handleAuthSASLContinue (demo_provider \<lparr> subtle_importKey := Some \<rparr>) demo_client
       (JString (js ''r=bad,i=0,r=rOprNGfwEbeRWgbNEkqO,s=QSXCR+Q6sek8bf92,i=3''))) = Returned \<and>
   handleAuthSASLContinue demo_provider demo_client
       (JString (js ''r=rOprNGfwEbeRWgbNEkqO,s=QSXCR+Q6sek8bf92,i=3'')) =
     handleAuthSASLContinue demo_provider demo_client
       (JString (js ''r=bad,i=0,r=rOprNGfwEbeRWgbNEkqO,s=QSXCR+Q6sek8bf92,i=3''))"
proof -
  let ?d1 = "js ''r=bad,i=0,r=rOprNGfwEbeRWgbNEkqO,s=QSXCR+Q6sek8bf92,i=3''"
  let ?d2 = "js ''r=rOprNGfwEbeRWgbNEkqO,s=QSXCR+Q6sek8bf92,i=3,i=0''"
  let ?d0 = "js ''r=rOprNGfwEbeRWgbNEkqO,s=QSXCR+Q6sek8bf92,i=3''"
  have tag: "message (saslSession demo_client) = js ''SASLInitialResponse''"
    by (simp add: demo_client_def)
  have pw: "password demo_client = JString (js ''pencil'')"
    by (simp add: demo_client_def)
  have cn: "clientNonce (saslSession demo_client) = js ''rOprNGfw''"
    by (simp add: demo_client_def)
  have sent0: "sentClientFinal demo_client = []"
    by (simp add: demo_client_def)
  have s1: "split_comma ?d1 =
      [js ''r=bad'', js ''i=0'', js ''r=rOprNGfwEbeRWgbNEkqO'', js ''s=QSXCR+Q6sek8bf92'',
       js ''i=3'']"
    by (simp add: js_def)
  have s2: "split_comma ?d2 =
      [js ''r=rOprNGfwEbeRWgbNEkqO'', js ''s=QSXCR+Q6sek8bf92'', js ''i=3'', js ''i=0'']"
    by (simp add: js_def)
  have s0: "split_comma ?d0 =
      [js ''r=rOprNGfwEbeRWgbNEkqO'', js ''s=QSXCR+Q6sek8bf92'', js ''i=3'']"
    by (simp add: js_def)
  have wf1: "list_all attr_pair_re (split_comma ?d1)"
    unfolding s1 by (simp add: js_def line_terminator_def)
  have wf2: "list_all attr_pair_re (split_comma ?d2)"
    unfolding s2 by (simp add: js_def line_terminator_def)
  have wf0: "list_all attr_pair_re (split_comma ?d0)"
    unfolding s0 by (simp add: js_def line_terminator_def)
  have l1: "last_occurrence (js ''r'') (split_comma ?d1) = Some (js ''rOprNGfwEbeRWgbNEkqO'')"
    "last_occurrence (js ''s'') (split_comma ?d1) = Some (js ''QSXCR+Q6sek8bf92'')"
    "last_occurrence (js ''i'') (split_comma ?d1) = Some (js ''3'')"
    unfolding s1 by (simp_all add: last_occurrence_def js_def)
  have l2: "last_occurrence (js ''r'') (split_comma ?d2) = Some (js ''rOprNGfwEbeRWgbNEkqO'')"
    "last_occurrence (js ''s'') (split_comma ?d2) = Some (js ''QSXCR+Q6sek8bf92'')"
    "last_occurrence (js ''i'') (split_comma ?d2) = Some (js ''0'')"
    unfolding s2 by (simp_all add: last_occurrence_def js_def)
  have l0: "last_occurrence (js ''r'') (split_comma ?d0) = Some (js ''rOprNGfwEbeRWgbNEkqO'')"
    "last_occurrence (js ''s'') (split_comma ?d0) = Some (js ''QSXCR+Q6sek8bf92'')"
    "last_occurrence (js ''i'') (split_comma ?d0) = Some (js ''3'')"
    unfolding s0 by (simp_all add: last_occurrence_def js_def)
  have maps: "validate (js ''rOprNGfw'') (\<lambda>k. last_occurrence k (split_comma ?d1)) =
      validate (js ''rOprNGfw'')
        [js ''r'' \<mapsto> js ''rOprNGfwEbeRWgbNEkqO'', js ''s'' \<mapsto> js ''QSXCR+Q6sek8bf92'',
         js ''i'' \<mapsto> js ''3'']"
    by (rule validate_reads_three) (simp_all only: l1, simp_all add: js_def)
  have v1: "validate (clientNonce (saslSession demo_client))
      (\<lambda>k. last_occurrence k (split_comma ?d1)) =
      Inr (js ''rOprNGfwEbeRWgbNEkqO'', js ''QSXCR+Q6sek8bf92'', js ''3'')"
    unfolding cn maps by (rule demo_validate)
  have maps2: "validate (js ''rOprNGfw'') (\<lambda>k. last_occurrence k (split_comma ?d2)) =
      validate (js ''rOprNGfw'')
        [js ''r'' \<mapsto> js ''rOprNGfwEbeRWgbNEkqO'', js ''s'' \<mapsto> js ''QSXCR+Q6sek8bf92'',
         js ''i'' \<mapsto> js ''0'']"
    by (rule validate_reads_three) (simp_all only: l2, simp_all add: js_def)
  have v2: "validate (clientNonce (saslSession demo_client))
      (\<lambda>k. last_occurrence k (split_comma ?d2)) = Inl SASL_invalid_iteration_count"
    unfolding cn maps2
    by (simp add: validate_def js_def nonce_re_def nonce_unit_def b64_unit_def digit_unit_def
        startsWith_def)
  note w1 = last_attribute_wins [OF wf1 tag pw, of demo_provider]
  note w2 = last_attribute_wins [OF wf2 tag pw, of demo_provider]
  note w3 = last_attribute_wins [OF wf1 tag pw, of "demo_provider \<lparr> subtle_importKey := Some \<rparr>"]
  from w1 have a: "attrPairs ?d1 = Inr (\<lambda>k. last_occurrence k (split_comma ?d1))"
    by blast
  from w2 v2 have c: "handleAuthSASLContinue demo_provider demo_client (JString ?d2) =
      (Threw SASL_invalid_iteration_count, demo_client)"
    by blast
  have locals: "continue_locals demo_provider demo_client (JString ?d1) =
     Inr \<lparr> saltedPassword = [123, 140, 20], clientKey = [27, 168, 10], storedKey = [10, 168, 27],
           authMessage = js ''n=*,r=rOprNGfw,r=rOprNGfwEbeRWgbNEkqO,s=QSXCR+Q6sek8bf92,i=3,c=biws,r=rOprNGfwEbeRWgbNEkqO'',
           clientFinalMessageWithoutProof = js ''c=biws,r=rOprNGfwEbeRWgbNEkqO'',
           clientProof = [214, 216, 80], serverSignatureBytes = [229, 112, 90] \<rparr>"
    unfolding continue_locals_parsed [OF a tag pw] v1
    by (simp add: cn demo_parseInt demo_scram_compute exact_number_def)
  have spec_sig: "spec_serverSignature demo_provider [123, 140, 20]
      (js ''n=*,r=rOprNGfw,r=rOprNGfwEbeRWgbNEkqO,s=QSXCR+Q6sek8bf92,i=3,c=biws,r=rOprNGfwEbeRWgbNEkqO'') =
      Some [229, 112, 90]"
    by (simp add: spec_serverSignature_def HMAC_def demo_provider_def js_def)
  from w1 locals obtain nonce where
    n: "last_occurrence (js ''r'') (split_comma ?d1) = Some nonce"
    and sent: "sentClientFinal (snd (handleAuthSASLContinue demo_provider demo_client
        (JString ?d1))) =
      sentClientFinal demo_client @ [js ''c=biws,r='' @ nonce @ js '',p='' @ [214, 216, 80]]"
    and sig: "serverSignature (saslSession (snd (handleAuthSASLContinue demo_provider
        demo_client (JString ?d1)))) =
      spec_serverSignature demo_provider [123, 140, 20]
        (js ''n=*,r=rOprNGfw,r=rOprNGfwEbeRWgbNEkqO,s=QSXCR+Q6sek8bf92,i=3,c=biws,r=rOprNGfwEbeRWgbNEkqO'')"
    by fastforce
  from n l1(1) have nonce: "nonce = js ''rOprNGfwEbeRWgbNEkqO''"
    by simp
  have d: "sentClientFinal (snd (handleAuthSASLContinue demo_provider demo_client
        (JString ?d1))) = [js ''c=biws,r=rOprNGfwEbeRWgbNEkqO,p='' @ [214, 216, 80]]"
    unfolding sent nonce sent0 by (simp add: js_def)
  have d': "serverSignature (saslSession (snd (handleAuthSASLContinue demo_provider
        demo_client (JString ?d1)))) = Some [229, 112, 90]"
    unfolding sig spec_sig ..
  have total: "\<forall>k. subtle_importKey (demo_provider \<lparr> subtle_importKey := Some \<rparr>) k \<noteq> None"
    by simp
  have exact: "exact_number (parseInt (js ''3''))"
    by (simp add: demo_parseInt exact_number_def)
  from w3 v1 exact total
  have e: "fst (handleAuthSASLContinue (demo_provider \<lparr> subtle_importKey := Some \<rparr>)
      demo_client (JString ?d1)) = Returned"
    by blast
  from w1 wf0 l0 l1
  have f: "handleAuthSASLContinue demo_provider demo_client (JString ?d0) =
      handleAuthSASLContinue demo_provider demo_client (JString ?d1)"
    by simp
  from a l1(1) c d d' e f show ?thesis
    by (intro conjI)
qed


section \<open>Properties of \<open>connect\<close>\<close>

subsection \<open>Emitting to the listeners of the pg client\<close>

lemma emit_each_append:
  "emit_each ev (xs @ ys) ls =
   (let (ls1, a1) = emit_each ev xs ls;
        (ls2, a2) = emit_each ev ys ls1
    in (ls2, a1 @ a2))"
proof (induction xs arbitrary: ls)
  case Nil
  show ?case by simp
next
  case (Cons x xs)
  obtain l one_shot where x: "x = (l, one_shot)"
    by (cases x) auto
  show ?case
    unfolding x by (simp add: Cons.IH Let_def case_prod_beta)
qed

lemma emit_each_pg_actions:
  "snd (emit_each ev (map (\<lambda>(n, one_shot). (PgListener n, one_shot)) ns) ls) =
   map (PgAction \<circ> fst) ns"
proof (induction ns arbitrary: ls)
  case Nil
  show ?case by simp
next
  case (Cons x ns)
  obtain n one_shot where x: "x = (n, one_shot)"
    by (cases x) auto
  show ?case
    unfolding x using Cons.IH by (simp add: Let_def case_prod_beta)
qed

lemma emit_each_pg_elsewhere:
  "ev' \<noteq> ev \<Longrightarrow>
   fst (emit_each ev (map (\<lambda>(n, one_shot). (PgListener n, one_shot)) ns) ls) ev' = ls ev'"
proof (induction ns arbitrary: ls)
  case Nil
  show ?case by simp
next
  case (Cons x ns)
  obtain n one_shot where x: "x = (n, one_shot)"
    by (cases x) auto
  show ?case
    unfolding x using Cons.prems Cons.IH by (simp add: Let_def case_prod_beta)
qed

lemma emits_ready_handled:
  "ls ReadyForQuery = [(HandleReadyForQuery, False)] \<Longrightarrow>
   snd (emits (replicate n ReadyForQuery) ls) = replicate n Call_handleReadyForQuery"
proof (induction n)
  case 0
  show ?case by simp
next
  case (Suc n)
  have "emit ReadyForQuery ls = (ls, [Call_handleReadyForQuery])"
    by (simp add: emit_def Suc.prems)
  then show ?case
    using Suc by (simp add: Let_def case_prod_beta)
qed

subsection \<open>The listeners that \<open>connect\<close> leaves\<close>

lemma connectEvent_cases:
  "connectEvent this = (if ssl this then SslConnect else Connect)"
  "connectEvent this \<noteq> ReadyForQuery"
  "connectEvent this \<noteq> AuthenticationCleartextPassword"
  by (simp_all add: connectEvent_def)

lemma connect_pipelined_listeners:
  assumes "pipelineConnect (neonConfig this) = Pipeline_password"
  shows "con_listeners (connect pg this) (connectEvent this) =
           map (\<lambda>(n, one_shot). (PgListener n, one_shot)) (pg (connectEvent this)) @
           [(PipelinedStartup, False)]"
    and "con_listeners (connect pg this) ReadyForQuery = [(ReinstallReadyForQuery, True)]"
    and "con_listeners (connect pg this) AuthenticationCleartextPassword = []"
  using assms
  by (auto simp: connect_def Let_def super_connect_def connectEvent_def on_def once_def
      removeAllListeners_def)

lemma connect_unpipelined_listeners:
  assumes "pipelineConnect (neonConfig this) \<noteq> Pipeline_password"
  shows "con_listeners (connect pg this) (connectEvent this) =
           map (\<lambda>(n, one_shot). (PgListener n, one_shot)) (pg (connectEvent this))"
proof -
  from assms have "\<not> truthy (pipelineConnect (neonConfig this))"
    by (cases "pipelineConnect (neonConfig this)") simp_all
  with assms show ?thesis
    by (auto simp: connect_def Let_def super_connect_def connectEvent_def on_def)
qed

lemma connect_tls_listeners:
  assumes "pipelineTLS (neonConfig this)" and "ssl this"
  shows "con_listeners (connect pg this) Connect =
           map (\<lambda>(n, one_shot). (PgListener n, one_shot)) (pg Connect) @
           [(FakeSslSupport, False)]"
  using assms
  by (auto simp: connect_def Let_def super_connect_def connectEvent_def on_def once_def
      removeAllListeners_def)

text \<open>The connect event of a pipelined startup: the listeners of the pg client run, then
  the password is sent and ready-for-query is assumed; the listeners of \<open>readyForQuery\<close>
  are as \<open>connect\<close> left them.\<close>

lemma emit_pipelined_connect:
  assumes "pipelineConnect (neonConfig this) = Pipeline_password"
  shows "snd (emit (connectEvent this) (con_listeners (connect pg this))) =
           map (PgAction \<circ> fst) (pg (connectEvent this)) @
           [Call_handleAuthCleartextPassword, Call_handleReadyForQuery]"
    and "fst (emit (connectEvent this) (con_listeners (connect pg this))) ReadyForQuery =
           [(ReinstallReadyForQuery, True)]"
proof -
  let ?L = "con_listeners (connect pg this)"
  let ?ce = "connectEvent this"
  let ?xs = "map (\<lambda>(n, one_shot). (PgListener n, one_shot)) (pg ?ce)"
  obtain ls1 a1 where e1: "emit_each ?ce ?xs ?L = (ls1, a1)"
    by (cases "emit_each ?ce ?xs ?L") auto
  have a1: "a1 = map (PgAction \<circ> fst) (pg ?ce)"
    using emit_each_pg_actions [of ?ce "pg ?ce" ?L] e1 by simp
  have ls1: "ls1 ReadyForQuery = ?L ReadyForQuery"
    using emit_each_pg_elsewhere [of ReadyForQuery ?ce "pg ?ce" ?L] e1
      connectEvent_cases(2) [of this] by simp
  have e: "emit ?ce ?L =
           (ls1, a1 @ [Call_handleAuthCleartextPassword, Call_handleReadyForQuery])"
    unfolding emit_def connect_pipelined_listeners(1) [OF assms] emit_each_append
    by (simp add: e1)
  show "snd (emit ?ce ?L) = map (PgAction \<circ> fst) (pg ?ce) @
           [Call_handleAuthCleartextPassword, Call_handleReadyForQuery]"
    by (simp add: e a1)
  show "fst (emit ?ce ?L) ReadyForQuery = [(ReinstallReadyForQuery, True)]"
    by (simp add: e ls1 connect_pipelined_listeners(2) [OF assms])
qed

lemma emit_reinstall:
  assumes "ls ReadyForQuery = [(ReinstallReadyForQuery, True)]"
  shows "snd (emit ReadyForQuery ls) = []"
    and "fst (emit ReadyForQuery ls) ReadyForQuery = [(HandleReadyForQuery, False)]"
  using assms by (simp_all add: emit_def on_def)

lemma emit_single_pg: "ls ev = [(PgListener n, False)] \<Longrightarrow> snd (emit ev ls) = [PgAction n]"
  by (simp add: emit_def)

lemma emits_Cons_actions:
  "snd (emits (ev # evs) ls) = snd (emit ev ls) @ snd (emits evs (fst (emit ev ls)))"
  by (simp add: Let_def case_prod_beta)

lemma emits_Cons_listeners:
  "fst (emits (ev # evs) ls) = fst (emits evs (fst (emit ev ls)))"
  by (simp add: Let_def case_prod_beta)

lemma demo_connect_trace:
  "snd (emits [Connect, ev] (con_listeners (connect demo_pg demo_neon_client))) =
     [PgAction 1, Call_handleAuthCleartextPassword, Call_handleReadyForQuery] @
     snd (emit ev (fst (emit Connect (con_listeners (connect demo_pg demo_neon_client)))))"
  "fst (emit Connect (con_listeners (connect demo_pg demo_neon_client))) ReadyForQuery =
     [(ReinstallReadyForQuery, True)]"
  "fst (emit Connect (con_listeners (connect demo_pg demo_neon_client)))
     (OtherEvent ''authenticationSASL'') = [(PgListener 5, False)]"
  by (simp_all add: connect_def demo_pg_def demo_neon_client_def super_connect_def
      connectEvent_def emit_def on_def once_def removeAllListeners_def Let_def js_def)

subsection \<open>Claim C5\<close>

text \<open>
  Claim C5, as the spec states it: startup pipelining is engaged only when configured and
  only for cleartext password authentication; for a connection whose server demands
  another mechanism the client falls back to the unpipelined path. The method never
  learns which mechanism the server demands: it decides on \<open>pipelineConnect\<close> alone. On
  the connection below, configured with \<open>'password'\<close>, the server's demand for SASL
  arrives after the connect event, and by then the client has sent the password and
  assumed ready-for-query.
\<close>

theorem pipelining_not_only_cleartext_counterexample:
  "snd (emits [Connect, OtherEvent ''authenticationSASL'']
         (con_listeners (connect demo_pg demo_neon_client))) =
   [PgAction 1, Call_handleAuthCleartextPassword, Call_handleReadyForQuery, PgAction 5]"
proof -
  have "snd (emit (OtherEvent ''authenticationSASL'')
          (fst (emit Connect (con_listeners (connect demo_pg demo_neon_client))))) =
        [PgAction 5]"
    using demo_connect_trace(3) by (rule emit_single_pg)
  then show ?thesis
    unfolding demo_connect_trace(1) by simp
qed

text \<open>
  Claim C5, amended: startup pipelining is engaged exactly when it is configured
  (\<open>pipelineConnect\<close> set to \<open>"password"\<close>). Then, on the connect event (\<open>sslconnect\<close>
  with SSL), after the pg client's own listeners the client sends the password and
  assumes ready-for-query, whatever events follow, and no listener for the server's
  request of a cleartext password is left. Otherwise the connect event runs the pg
  client's listeners only. The mechanism the server demands plays no part.
\<close>

theorem startup_pipelining_follows_configuration:
  "(pipelineConnect (neonConfig this) = Pipeline_password \<longrightarrow>
      (\<exists>rest. snd (emits (connectEvent this # later) (con_listeners (connect pg this))) =
         map (PgAction \<circ> fst) (pg (connectEvent this)) @
         [Call_handleAuthCleartextPassword, Call_handleReadyForQuery] @ rest) \<and>
      con_listeners (connect pg this) AuthenticationCleartextPassword = []) \<and>
   (pipelineConnect (neonConfig this) \<noteq> Pipeline_password \<longrightarrow>
      snd (emit (connectEvent this) (con_listeners (connect pg this))) =
        map (PgAction \<circ> fst) (pg (connectEvent this)))"
proof (intro conjI impI)
  assume p: "pipelineConnect (neonConfig this) = Pipeline_password"
  show "\<exists>rest. snd (emits (connectEvent this # later) (con_listeners (connect pg this))) =
         map (PgAction \<circ> fst) (pg (connectEvent this)) @
         [Call_handleAuthCleartextPassword, Call_handleReadyForQuery] @ rest"
    unfolding emits_Cons_actions emit_pipelined_connect(1) [OF p] by simp
  show "con_listeners (connect pg this) AuthenticationCleartextPassword = []"
    by (rule connect_pipelined_listeners(3) [OF p])
next
  assume "pipelineConnect (neonConfig this) \<noteq> Pipeline_password"
  then show "snd (emit (connectEvent this) (con_listeners (connect pg this))) =
        map (PgAction \<circ> fst) (pg (connectEvent this))"
    unfolding emit_def by (simp add: connect_unpipelined_listeners emit_each_pg_actions)
qed

theorem startup_pipelining_follows_configuration_witness:
  "(\<exists>rest. snd (emits [Connect, OtherEvent ''authenticationSASL'']
              (con_listeners (connect demo_pg demo_neon_client))) =
      [PgAction 1, Call_handleAuthCleartextPassword, Call_handleReadyForQuery] @ rest) \<and>
   con_listeners (connect demo_pg demo_neon_client) AuthenticationCleartextPassword = [] \<and>
   snd (emit Connect (con_listeners (connect demo_pg
          (demo_neon_client \<lparr> neonConfig := (neonConfig demo_neon_client)
             \<lparr> pipelineConnect := Pipeline_false \<rparr> \<rparr>)))) = [PgAction 1]"
proof -
  have p: "pipelineConnect (neonConfig demo_neon_client) = Pipeline_password"
    by (simp add: demo_neon_client_def)
  have ce: "connectEvent demo_neon_client = Connect"
    by (simp add: connectEvent_def demo_neon_client_def)
  have q: "pipelineConnect (neonConfig (demo_neon_client \<lparr> neonConfig :=
             (neonConfig demo_neon_client) \<lparr> pipelineConnect := Pipeline_false \<rparr> \<rparr>)) \<noteq>
           Pipeline_password"
    by simp
  have ce': "connectEvent (demo_neon_client \<lparr> neonConfig :=
             (neonConfig demo_neon_client) \<lparr> pipelineConnect := Pipeline_false \<rparr> \<rparr>) = Connect"
    by (simp add: connectEvent_def demo_neon_client_def)
  have pg1: "map (PgAction \<circ> fst) (demo_pg Connect) = [PgAction 1]"
    by (simp add: demo_pg_def)
  note w1 = startup_pipelining_follows_configuration
    [where this = demo_neon_client and pg = demo_pg and
      later = "[OtherEvent ''authenticationSASL'']", unfolded ce pg1]
  note w2 = startup_pipelining_follows_configuration
    [where this = "demo_neon_client \<lparr> neonConfig :=
             (neonConfig demo_neon_client) \<lparr> pipelineConnect := Pipeline_false \<rparr> \<rparr>"
      and pg = demo_pg, unfolded ce' pg1]
  from w1 p have "\<exists>rest. snd (emits [Connect, OtherEvent ''authenticationSASL'']
              (con_listeners (connect demo_pg demo_neon_client))) =
      [PgAction 1, Call_handleAuthCleartextPassword, Call_handleReadyForQuery] @ rest"
    by simp
  moreover from w1 p
  have "con_listeners (connect demo_pg demo_neon_client) AuthenticationCleartextPassword = []"
    by blast
  moreover from w2 q have "snd (emit Connect (con_listeners (connect demo_pg
          (demo_neon_client \<lparr> neonConfig := (neonConfig demo_neon_client)
             \<lparr> pipelineConnect := Pipeline_false \<rparr> \<rparr>)))) = [PgAction 1]"
    by blast
  ultimately show ?thesis
    by (intro conjI)
qed

subsection \<open>Claim C6\<close>

text \<open>
  Claim C6, as the spec states it: exactly one ready-for-query is synthesized, on the
  connect event together with the password response, and after it the normal handler of
  \<open>readyForQuery\<close> is installed again, so that the real ready-for-query messages that
  follow are handled by the normal handler. The synthesized ready-for-query is a direct
  call of \<open>_handleReadyForQuery\<close>, not an event, and it installs nothing: after the
  connect event the only listener of \<open>readyForQuery\<close> is the one-shot listener of line
  78, and the first real ready-for-query message is taken by it and reaches no handler.
\<close>

theorem first_real_ready_not_handled_counterexample:
  "fst (emit Connect (con_listeners (connect demo_pg demo_neon_client))) ReadyForQuery =
     [(ReinstallReadyForQuery, True)] \<and>
   snd (emits [Connect, ReadyForQuery] (con_listeners (connect demo_pg demo_neon_client))) =
     [PgAction 1, Call_handleAuthCleartextPassword, Call_handleReadyForQuery]"
proof -
  have "snd (emit ReadyForQuery
          (fst (emit Connect (con_listeners (connect demo_pg demo_neon_client))))) = []"
    using demo_connect_trace(2) by (rule emit_reinstall(1))
  then show ?thesis
    unfolding demo_connect_trace(1) demo_connect_trace(2) by simp
qed

text \<open>
  Claim C6, amended: for a pipelined startup, exactly one ready-for-query is synthesized,
  on the connect (or \<open>sslconnect\<close>) event together with the synthesized password
  response. The first real ready-for-query message after it is not handled: it is taken
  by a one-shot listener that installs the normal handler again. Every real
  ready-for-query message after the first is handled by the normal handler, once.
\<close>

theorem ready_for_query_once:
  assumes "pipelineConnect (neonConfig this) = Pipeline_password"
  shows "snd (emits (connectEvent this # replicate (Suc n) ReadyForQuery)
                (con_listeners (connect pg this))) =
           map (PgAction \<circ> fst) (pg (connectEvent this)) @
           [Call_handleAuthCleartextPassword, Call_handleReadyForQuery] @
           replicate n Call_handleReadyForQuery \<and>
         fst (emits [connectEvent this, ReadyForQuery] (con_listeners (connect pg this)))
           ReadyForQuery = [(HandleReadyForQuery, False)]"
proof -
  let ?L = "con_listeners (connect pg this)"
  let ?L1 = "fst (emit (connectEvent this) ?L)"
  let ?L2 = "fst (emit ReadyForQuery ?L1)"
  note first = emit_pipelined_connect [OF assms, of pg]
  have second: "snd (emit ReadyForQuery ?L1) = []"
    "?L2 ReadyForQuery = [(HandleReadyForQuery, False)]"
    using first(2) by (rule emit_reinstall)+
  have later: "snd (emits (replicate n ReadyForQuery) ?L2) =
               replicate n Call_handleReadyForQuery"
    using second(2) by (rule emits_ready_handled)
  have "snd (emits (connectEvent this # replicate (Suc n) ReadyForQuery) ?L) =
        snd (emit (connectEvent this) ?L) @ snd (emit ReadyForQuery ?L1) @
        snd (emits (replicate n ReadyForQuery) ?L2)"
    by (simp only: replicate_Suc emits_Cons_actions)
  then have trace: "snd (emits (connectEvent this # replicate (Suc n) ReadyForQuery) ?L) =
           map (PgAction \<circ> fst) (pg (connectEvent this)) @
           [Call_handleAuthCleartextPassword, Call_handleReadyForQuery] @
           replicate n Call_handleReadyForQuery"
    by (simp add: first(1) second(1) later)
  have "fst (emits [connectEvent this, ReadyForQuery] ?L) = ?L2"
    by (simp add: Let_def case_prod_beta)
  with second(2) trace show ?thesis
    by simp
qed

theorem ready_for_query_once_witness:
  "snd (emits [Connect, ReadyForQuery, ReadyForQuery, ReadyForQuery]
         (con_listeners (connect demo_pg demo_neon_client))) =
     [PgAction 1, Call_handleAuthCleartextPassword, Call_handleReadyForQuery,
      Call_handleReadyForQuery, Call_handleReadyForQuery] \<and>
   fst (emits [Connect, ReadyForQuery] (con_listeners (connect demo_pg demo_neon_client)))
     ReadyForQuery = [(HandleReadyForQuery, False)]"
proof -
  have p: "pipelineConnect (neonConfig demo_neon_client) = Pipeline_password"
    by (simp add: demo_neon_client_def)
  have ce: "connectEvent demo_neon_client = Connect"
    by (simp add: connectEvent_def demo_neon_client_def)
  have pg1: "map (PgAction \<circ> fst) (demo_pg Connect) = [PgAction 1]"
    by (simp add: demo_pg_def)
  have three: "replicate (Suc 2) ReadyForQuery = [ReadyForQuery, ReadyForQuery, ReadyForQuery]"
    by (simp add: numeral_2_eq_2)
  have two: "replicate 2 Call_handleReadyForQuery =
             [Call_handleReadyForQuery, Call_handleReadyForQuery]"
    by (simp add: numeral_2_eq_2)
  from ready_for_query_once [OF p, of 2 demo_pg, unfolded ce pg1 three two]
  show ?thesis
    by simp
qed

subsection \<open>Claim C7\<close>

text \<open>
  Claim C7. When TLS pipelining is requested and Postgres SSL is enabled, on the connect
  event of the connection the client puts the server's one-byte answer \<open>'S'\<close> on the
  stream's \<open>data\<close> event itself, right after the pg client's own connect listeners and
  within the same event, without waiting for a byte from the wire. (The listener of the
  stream's \<open>data\<close> event, which starts the TLS handshake on \<open>'S'\<close>, is the pg
  connection's.)
\<close>

theorem tls_pipelining_fakes_ssl_answer:
  assumes "pipelineTLS (neonConfig this)" and "ssl this"
  shows "snd (emit Connect (con_listeners (connect pg this))) =
           map (PgAction \<circ> fst) (pg Connect) @ [StreamEmitData (js ''S'')]"
proof -
  let ?L = "con_listeners (connect pg this)"
  let ?xs = "map (\<lambda>(n, one_shot). (PgListener n, one_shot)) (pg Connect)"
  have "snd (emit Connect ?L) =
        snd (emit_each Connect ?xs ?L) @
        snd (emit_each Connect [(FakeSslSupport, False)] (fst (emit_each Connect ?xs ?L)))"
    unfolding emit_def connect_tls_listeners [OF assms] emit_each_append
    by (simp add: Let_def case_prod_beta)
  then show ?thesis
    by (simp add: emit_each_pg_actions)
qed

theorem tls_pipelining_fakes_ssl_answer_witness:
  "snd (emit Connect (con_listeners (connect demo_pg
     (demo_neon_client \<lparr> ssl := True,
        neonConfig := (neonConfig demo_neon_client) \<lparr> pipelineTLS := True \<rparr> \<rparr>)))) =
   [PgAction 1, StreamEmitData (js ''S'')]"
proof -
  have a: "pipelineTLS (neonConfig (demo_neon_client \<lparr> ssl := True,
        neonConfig := (neonConfig demo_neon_client) \<lparr> pipelineTLS := True \<rparr> \<rparr>))"
    by simp
  have b: "ssl (demo_neon_client \<lparr> ssl := True,
        neonConfig := (neonConfig demo_neon_client) \<lparr> pipelineTLS := True \<rparr> \<rparr>)"
    by simp
  have pg1: "map (PgAction \<circ> fst) (demo_pg Connect) = [PgAction 1]"
    by (simp add: demo_pg_def)
  from tls_pipelining_fakes_ssl_answer [OF a b, of demo_pg, unfolded pg1]
  show ?thesis
    by simp
qed


section \<open>Properties of the HTTP query results\<close>

lemma object_row_lookup:
  assumes "distinct names" and "length r = length names" and "i < length names"
  shows "map_of (zip names r) (names ! i) = Some (r ! i)"
proof -
  from assms have "(names ! i, r ! i) \<in> set (zip names r)"
    by (metis in_set_zip fst_conv snd_conv)
  moreover from assms have "distinct (map fst (zip names r))"
    by simp
  ultimately show ?thesis
    by (rule map_of_is_SomeI [rotated])
qed

subsection \<open>Claim C8\<close>

text \<open>
  Claim C8. For every HTTP query result, \<open>arrayMode=false\<close> (the default) gives the rows
  as objects keyed by column name and \<open>arrayMode=true\<close> gives them as positional arrays;
  \<open>fullResults=false\<close> (the default) gives the bare rows and \<open>fullResults=true\<close> gives
  \<open>{fields, command, rowCount, rows, rowAsArray}\<close>, where \<open>rowAsArray\<close> is the array mode
  in force. The shaping function is modelled from the spec.
\<close>

theorem query_result_shaping:
  "processQueryResult opts raw =
     (if fullResults opts = Some True
      then Full_results
             \<lparr> res_fields = raw_fields raw, res_command = raw_command raw,
               res_rowCount = raw_rowCount raw,
               res_rows = shape_rows (arrayMode opts = Some True) (raw_fields raw) (raw_rows raw),
               res_rowAsArray = (arrayMode opts = Some True) \<rparr>
      else Bare_rows (shape_rows (arrayMode opts = Some True) (raw_fields raw) (raw_rows raw))) \<and>
   shape_rows True names rs = Array_rows rs \<and>
   (\<exists>objects. shape_rows False names rs = Object_rows objects \<and>
      length objects = length rs \<and>
      (\<forall>j i. j < length rs \<and> distinct names \<and> length (rs ! j) = length names \<and>
             i < length names \<longrightarrow> (objects ! j) (names ! i) = Some (rs ! j ! i)))"
proof (intro conjI)
  show "processQueryResult opts raw =
     (if fullResults opts = Some True
      then Full_results
             \<lparr> res_fields = raw_fields raw, res_command = raw_command raw,
               res_rowCount = raw_rowCount raw,
               res_rows = shape_rows (arrayMode opts = Some True) (raw_fields raw) (raw_rows raw),
               res_rowAsArray = (arrayMode opts = Some True) \<rparr>
      else Bare_rows (shape_rows (arrayMode opts = Some True) (raw_fields raw) (raw_rows raw)))"
    unfolding processQueryResult_def Let_def
    by (cases "arrayMode opts"; cases "fullResults opts") auto
  show "shape_rows True names rs = Array_rows rs"
    by (simp add: shape_rows_def)
  show "\<exists>objects. shape_rows False names rs = Object_rows objects \<and>
      length objects = length rs \<and>
      (\<forall>j i. j < length rs \<and> distinct names \<and> length (rs ! j) = length names \<and>
             i < length names \<longrightarrow> (objects ! j) (names ! i) = Some (rs ! j ! i))"
    by (rule exI [of _ "map (\<lambda>r. map_of (zip names r)) rs"])
       (simp add: shape_rows_def object_row_lookup)
qed

theorem query_result_shaping_witness:
  "processQueryResult \<lparr> arrayMode = None, fullResults = None \<rparr>
     \<lparr> raw_fields = [''one''], raw_command = ''SELECT'', raw_rowCount = 1,
       raw_rows = [[1 :: int]] \<rparr> =
     Bare_rows (Object_rows [[''one'' \<mapsto> 1]]) \<and>
   processQueryResult \<lparr> arrayMode = Some True, fullResults = None \<rparr>
     \<lparr> raw_fields = [''one''], raw_command = ''SELECT'', raw_rowCount = 1,
       raw_rows = [[1 :: int]] \<rparr> =
     Bare_rows (Array_rows [[1]]) \<and>
   processQueryResult \<lparr> arrayMode = None, fullResults = Some True \<rparr>
     \<lparr> raw_fields = [''one''], raw_command = ''SELECT'', raw_rowCount = 1,
       raw_rows = [[1 :: int]] \<rparr> =
     Full_results \<lparr> res_fields = [''one''], res_command = ''SELECT'', res_rowCount = 1,
                    res_rows = Object_rows [[''one'' \<mapsto> 1]], res_rowAsArray = False \<rparr> \<and>
   (\<exists>objects. shape_rows False [''one''] [[1 :: int]] = Object_rows objects \<and>
      length objects = 1 \<and> (objects ! 0) ''one'' = Some 1)"
proof -
  have o: "shape_rows False [''one''] [[1 :: int]] = Object_rows [[''one'' \<mapsto> 1]]"
    by (simp add: shape_rows_def)
  note w = query_result_shaping [where names = "[''one'']" and rs = "[[1 :: int]]"]
  from w [where opts = "\<lparr> arrayMode = None, fullResults = None \<rparr>" and
      raw = "\<lparr> raw_fields = [''one''], raw_command = ''SELECT'', raw_rowCount = 1,
               raw_rows = [[1 :: int]] \<rparr>"]
  have a: "processQueryResult \<lparr> arrayMode = None, fullResults = None \<rparr>
     \<lparr> raw_fields = [''one''], raw_command = ''SELECT'', raw_rowCount = 1,
       raw_rows = [[1 :: int]] \<rparr> =
     Bare_rows (Object_rows [[''one'' \<mapsto> 1]])"
    by (simp add: o)
  from w [where opts = "\<lparr> arrayMode = Some True, fullResults = None \<rparr>" and
      raw = "\<lparr> raw_fields = [''one''], raw_command = ''SELECT'', raw_rowCount = 1,
               raw_rows = [[1 :: int]] \<rparr>"]
  have b: "processQueryResult \<lparr> arrayMode = Some True, fullResults = None \<rparr>
     \<lparr> raw_fields = [''one''], raw_command = ''SELECT'', raw_rowCount = 1,
       raw_rows = [[1 :: int]] \<rparr> =
     Bare_rows (Array_rows [[1]])"
    by simp
  from w [where opts = "\<lparr> arrayMode = None, fullResults = Some True \<rparr>" and
      raw = "\<lparr> raw_fields = [''one''], raw_command = ''SELECT'', raw_rowCount = 1,
               raw_rows = [[1 :: int]] \<rparr>"]
  have c: "processQueryResult \<lparr> arrayMode = None, fullResults = Some True \<rparr>
     \<lparr> raw_fields = [''one''], raw_command = ''SELECT'', raw_rowCount = 1,
       raw_rows = [[1 :: int]] \<rparr> =
     Full_results \<lparr> res_fields = [''one''], res_command = ''SELECT'', res_rowCount = 1,
                    res_rows = Object_rows [[''one'' \<mapsto> 1]], res_rowAsArray = False \<rparr>"
    by (simp add: o)
  from w obtain objects where
    shaped: "shape_rows False [''one''] [[1 :: int]] = Object_rows objects"
    and len: "length objects = length [[1 :: int]]"
    and keyed: "\<forall>j i. j < length [[1 :: int]] \<and> distinct [''one''] \<and>
             length ([[1 :: int]] ! j) = length [''one''] \<and> i < length [''one''] \<longrightarrow>
             (objects ! j) ([''one''] ! i) = Some ([[1 :: int]] ! j ! i)"
    by blast
  from keyed have "(objects ! 0) ([''one''] ! 0) = Some ([[1 :: int]] ! 0 ! 0)"
    by (intro keyed [rule_format]) simp
  then have "(objects ! 0) ''one'' = Some 1"
    by simp
  with shaped len have d: "\<exists>objects. shape_rows False [''one''] [[1 :: int]] = Object_rows objects \<and>
      length objects = 1 \<and> (objects ! 0) ''one'' = Some 1"
    by auto
  from a b c d show ?thesis
    by (intro conjI)
qed


end
